theory Spec2Isabelle
  imports Complex_Main "HOL-Library.AList" "HOL-Library.Product_Lexorder" "HOL-Library.Sublist"
begin

section \<open>Python values and failures\<close>

text \<open>
  A Python \<open>str\<close> is a sequence of Unicode code points; it is modelled as a list of
  natural numbers, one per code point, so that \<open>length\<close> is Python's \<open>len\<close>.
  \<open>S\<close> embeds an ASCII literal. Python's \<open>int\<close> is \<open>int\<close>; a Python \<open>float\<close> is
  idealised as a \<open>real\<close> (rounding is not modelled).
\<close>

type_synonym pystr = "nat list"

definition S :: "string \<Rightarrow> pystr" where
  "S s = map of_char s"

datatype py_error =
  IndexError | KeyError | ZeroDivisionError | AttributeError | TypeError | ValueError
  | UnicodeDecodeError | OSError

definition then_do :: "'e + 'a \<Rightarrow> ('a \<Rightarrow> 'e + 'b) \<Rightarrow> 'e + 'b" where
  "then_do m f = (case m of Inl e \<Rightarrow> Inl e | Inr x \<Rightarrow> f x)"

definition py_index :: "'a list \<Rightarrow> int \<Rightarrow> py_error + 'a" where
  \<comment> \<open>\<open>xs[i]\<close>: a negative index counts from the end, out of range raises.\<close>
  "py_index xs i =
     (if 0 \<le> i \<and> i < int (length xs) then Inr (xs ! nat i)
      else if i < 0 \<and> - int (length xs) \<le> i then Inr (xs ! nat (int (length xs) + i))
      else Inl IndexError)"

definition py_truediv :: "real \<Rightarrow> real \<Rightarrow> py_error + real" where
  \<comment> \<open>\<open>a / b\<close> on numbers.\<close>
  "py_truediv a b = (if b = 0 then Inl ZeroDivisionError else Inr (a / b))"

section \<open>StringDistanceCalculator\<close>

text \<open>
  The inner \<open>for j, c2 in enumerate(s2)\<close> loop of \<open>calculate_levenshtein_distance\<close>:
  it appends one cell to \<open>current_row\<close> per character of \<open>s2\<close>.
\<close>

fun levenshtein_inner ::
  "'a \<Rightarrow> int list \<Rightarrow> (nat \<times> 'a) list \<Rightarrow> int list \<Rightarrow> py_error + int list" where
  "levenshtein_inner c1 previous_row [] current_row = Inr current_row"
| "levenshtein_inner c1 previous_row ((j, c2) # rest) current_row =
     then_do (py_index previous_row (int j + 1)) (\<lambda>p1.
     then_do (py_index current_row (int j)) (\<lambda>c0.
     then_do (py_index previous_row (int j)) (\<lambda>p0.
       let insertions = p1 + 1;
           deletions = c0 + 1;
           substitutions = p0 + (if c1 \<noteq> c2 then 1 else 0)
       in levenshtein_inner c1 previous_row rest
            (current_row @ [min insertions (min deletions substitutions)]))))"

text \<open>The outer \<open>for i, c1 in enumerate(s1)\<close> loop: one row per character of \<open>s1\<close>.\<close>

fun levenshtein_outer ::
  "(nat \<times> 'a) list \<Rightarrow> 'a list \<Rightarrow> int list \<Rightarrow> py_error + int list" where
  "levenshtein_outer [] s2 previous_row = Inr previous_row"
| "levenshtein_outer ((i, c1) # rest) s2 previous_row =
     then_do (levenshtein_inner c1 previous_row (enumerate 0 s2) [int i + 1])
       (\<lambda>current_row. levenshtein_outer rest s2 current_row)"

function calculate_levenshtein_distance :: "'a list \<Rightarrow> 'a list \<Rightarrow> py_error + int" where
  "calculate_levenshtein_distance s1 s2 =
     (if length s1 < length s2 then calculate_levenshtein_distance s2 s1
      else if length s2 = 0 then Inr (int (length s1))
      else then_do (levenshtein_outer (enumerate 0 s1) s2 (map int [0..<length s2 + 1]))
             (\<lambda>previous_row. py_index previous_row (- 1)))"
  by pat_completeness auto
termination
  by (relation "measure (\<lambda>(s1, s2). if length s1 < length s2 then 1 else 0)") auto

declare calculate_levenshtein_distance.simps [simp del]

definition calculate_similarity :: "'a list \<Rightarrow> 'a list \<Rightarrow> py_error + real" where
  "calculate_similarity s1 s2 =
     (if s1 = s2 then Inr 1
      else let max_length = max (length s1) (length s2)
           in if max_length = 0 then Inr 1
              else then_do (calculate_levenshtein_distance s1 s2)
                     (\<lambda>distance. then_do (py_truediv (real_of_int distance) (real max_length))
                        (\<lambda>q. Inr (1 - q))))"

subsection \<open>The reference distance\<close>

text \<open>
  \<open>edits a b n\<close>: \<open>a\<close> can be turned into \<open>b\<close> by a left-to-right script that keeps
  characters for free and pays 1 for each substitution, deletion and insertion, at
  total cost \<open>n\<close>. The classic Levenshtein distance is the least such \<open>n\<close>;
  \<open>levenshtein_spec\<close> is its textbook recurrence.
\<close>

inductive edits :: "'a list \<Rightarrow> 'a list \<Rightarrow> nat \<Rightarrow> bool" where
  edits_Nil: "edits [] [] 0"
| edits_keep: "edits xs ys n \<Longrightarrow> edits (x # xs) (x # ys) n"
| edits_subst: "edits xs ys n \<Longrightarrow> edits (x # xs) (y # ys) (Suc n)"
| edits_delete: "edits xs ys n \<Longrightarrow> edits (x # xs) ys (Suc n)"
| edits_insert: "edits xs ys n \<Longrightarrow> edits xs (y # ys) (Suc n)"

fun levenshtein_spec :: "'a list \<Rightarrow> 'a list \<Rightarrow> nat" where
  "levenshtein_spec [] ys = length ys"
| "levenshtein_spec (x # xs) [] = Suc (length xs)"
| "levenshtein_spec (x # xs) (y # ys) =
     min (min (levenshtein_spec xs (y # ys) + 1) (levenshtein_spec (x # xs) ys + 1))
         (levenshtein_spec xs ys + (if x = y then 0 else 1))"

section \<open>Built-ins that are not part of the repository\<close>

datatype json =
  JNull | JBool bool | JInt int | JFloat real | JStr pystr
  | JList "json list" | JObj "(pystr \<times> json) list"

text \<open>
  The parsed document is a value of \<open>json\<close>; an object keeps its keys in insertion
  order, as a Python \<open>dict\<close> does, and its keys are distinct.

  The Unicode tables behind \<open>\w\<close>, \<open>str.split\<close> and \<open>str.lower\<close>, and Python's
  rendering of floats and containers by \<open>str\<close>, are parameters of the model:
  \<open>isalnum\<close> and \<open>isspace\<close> classify one code point, \<open>lower\<close> is \<open>str.lower\<close>,
  \<open>repr\<close> is \<open>str\<close> on a float, list or dict.
\<close>

record builtins =
  isalnum :: "nat \<Rightarrow> bool"
  isspace :: "nat \<Rightarrow> bool"
  lower :: "pystr \<Rightarrow> pystr"
  repr :: "json \<Rightarrow> pystr"

definition is_upper :: "nat \<Rightarrow> bool" where
  \<comment> \<open>the class \<open>[A-Z]\<close>\<close>
  "is_upper c = (65 \<le> c \<and> c \<le> 90)"

definition is_lower :: "nat \<Rightarrow> bool" where
  \<comment> \<open>the class \<open>[a-z]\<close>\<close>
  "is_lower c = (97 \<le> c \<and> c \<le> 122)"

definition is_digit :: "nat \<Rightarrow> bool" where
  \<comment> \<open>the class \<open>[0-9]\<close>\<close>
  "is_digit c = (48 \<le> c \<and> c \<le> 57)"

definition is_word :: "builtins \<Rightarrow> nat \<Rightarrow> bool" where
  \<comment> \<open>the class \<open>\w\<close>: alphanumeric or underscore\<close>
  "is_word B c = (isalnum B c \<or> c = 95)"

definition ascii_builtins :: builtins where
  \<comment> \<open>The built-ins cut down to ASCII: every other code point is neither a word
      character nor white space and is its own lower case.\<close>
  "ascii_builtins =
     \<lparr> isalnum = (\<lambda>c. is_upper c \<or> is_lower c \<or> is_digit c),
       isspace = (\<lambda>c. (9 \<le> c \<and> c \<le> 13) \<or> (28 \<le> c \<and> c \<le> 32)),
       lower = map (\<lambda>c. if is_upper c then c + 32 else c),
       repr = (\<lambda>v. []) \<rparr>"

definition ascii_faithful :: "builtins \<Rightarrow> bool" where
  \<comment> \<open>what Python's tables say about the ASCII code points\<close>
  "ascii_faithful B =
     ((\<forall>c<128. isalnum B c = (is_upper c \<or> is_lower c \<or> is_digit c)) \<and>
      (\<forall>c<128. isspace B c = ((9 \<le> c \<and> c \<le> 13) \<or> (28 \<le> c \<and> c \<le> 32))) \<and>
      (\<forall>s. list_all (\<lambda>c. c < 128) s \<longrightarrow>
           lower B s = map (\<lambda>c. if is_upper c then c + 32 else c) s))"

function digits_of :: "nat \<Rightarrow> pystr" where
  "digits_of n = (if n < 10 then [48 + n] else digits_of (n div 10) @ [48 + n mod 10])"
  by pat_completeness auto
termination
  by (relation "measure id") auto

declare digits_of.simps [simp del]

definition str_int :: "int \<Rightarrow> pystr" where
  "str_int i = (if i < 0 then 45 # digits_of (nat (- i)) else digits_of (nat i))"

definition py_str :: "builtins \<Rightarrow> json \<Rightarrow> pystr" where
  \<comment> \<open>\<open>str(v)\<close>\<close>
  "py_str B v =
     (case v of
        JStr s \<Rightarrow> s
      | JNull \<Rightarrow> S ''None''
      | JBool b \<Rightarrow> (if b then S ''True'' else S ''False'')
      | JInt i \<Rightarrow> str_int i
      | _ \<Rightarrow> repr B v)"

section \<open>IdentifierTokenizer\<close>

text \<open>
  \<open>re.sub(pattern, r'\1 \2', text)\<close> for a pattern of two groups that cannot match the
  empty string: scan from the left; where the pattern matches, copy group 1, a space
  and group 2 and go on after the match; elsewhere copy one character. The matcher
  gives the lengths of the two groups of the match that starts the text.
\<close>

fun re_sub_groups :: "(pystr \<Rightarrow> (nat \<times> nat) option) \<Rightarrow> pystr \<Rightarrow> pystr" where
  "re_sub_groups m [] = []"
| "re_sub_groups m (c # cs) =
     (case m (c # cs) of
        None \<Rightarrow> c # re_sub_groups m cs
      | Some (g1, g2) \<Rightarrow>
          take g1 (c # cs) @ [32] @ take g2 (drop g1 (c # cs))
            @ re_sub_groups m (drop (g1 + g2 - 1) cs))"

definition match_acronym :: "pystr \<Rightarrow> (nat \<times> nat) option" where
  \<comment> \<open>\<open>([A-Z]+)([A-Z][a-z])\<close>: the greedy \<open>[A-Z]+\<close> takes the whole run of capitals
      and gives back exactly one, which must be followed by a small letter.\<close>
  "match_acronym s =
     (let k = length (takeWhile is_upper s)
      in if 2 \<le> k \<and> (case drop k s of [] \<Rightarrow> False | c # _ \<Rightarrow> is_lower c)
         then Some (k - 1, 2) else None)"

definition match_camel :: "pystr \<Rightarrow> (nat \<times> nat) option" where
  \<comment> \<open>\<open>([a-z0-9])([A-Z])\<close>\<close>
  "match_camel s =
     (case s of a # b # _ \<Rightarrow>
        if (is_lower a \<or> is_digit a) \<and> is_upper b then Some (1, 1) else None
      | _ \<Rightarrow> None)"

definition match_digit_letter :: "pystr \<Rightarrow> (nat \<times> nat) option" where
  \<comment> \<open>\<open>([0-9])([a-zA-Z])\<close>\<close>
  "match_digit_letter s =
     (case s of a # b # _ \<Rightarrow>
        if is_digit a \<and> (is_lower b \<or> is_upper b) then Some (1, 1) else None
      | _ \<Rightarrow> None)"

definition match_letter_digit :: "pystr \<Rightarrow> (nat \<times> nat) option" where
  \<comment> \<open>\<open>([a-zA-Z])([0-9])\<close>\<close>
  "match_letter_digit s =
     (case s of a # b # _ \<Rightarrow>
        if (is_lower a \<or> is_upper a) \<and> is_digit b then Some (1, 1) else None
      | _ \<Rightarrow> None)"

text \<open>\<open>text.split()\<close>: the maximal runs of characters that are not white space.\<close>

fun py_split :: "(nat \<Rightarrow> bool) \<Rightarrow> pystr \<Rightarrow> pystr \<Rightarrow> pystr list" where
  "py_split sp cur [] = (if cur = [] then [] else [cur])"
| "py_split sp cur (c # cs) =
     (if sp c then (if cur = [] then [] else [cur]) @ py_split sp [] cs
      else py_split sp (cur @ [c]) cs)"

definition tokenize :: "builtins \<Rightarrow> pystr \<Rightarrow> pystr list" where
  "tokenize B identifier =
     (if identifier = [] then []
      else
        let clean1 = map (\<lambda>c. if is_word B c then c else 32) identifier;
            clean2 = map (\<lambda>c. if c = 95 then 32 else c) clean1;
            clean3 = re_sub_groups match_acronym clean2;
            clean4 = re_sub_groups match_camel clean3;
            clean5 = re_sub_groups match_digit_letter clean4;
            clean6 = re_sub_groups match_letter_digit clean5
        in map (lower B) (py_split (isspace B) [] clean6))"

section \<open>MetricResult and RenamePredictionEvaluator\<close>

record MetricResult =
  exact_match :: int
  edit_similarity :: real
  token_precision :: real
  token_recall :: real
  token_f1 :: real

definition MetricResult_empty :: MetricResult where
  "MetricResult_empty =
     \<lparr> exact_match = 0, edit_similarity = 0, token_precision = 0,
       token_recall = 0, token_f1 = 0 \<rparr>"

text \<open>
  \<open>collections.Counter\<close> is a dict from element to count, in order of first
  occurrence: \<open>Counter(xs)\<close> adds one to the count of each element in turn, a missing
  element counts 0, \<open>a & b\<close> keeps for each key of \<open>a\<close> the smaller of the two counts
  when that is positive.
\<close>

definition counter_get :: "('a \<times> int) list \<Rightarrow> 'a \<Rightarrow> int" where
  "counter_get m x = (case map_of m x of None \<Rightarrow> 0 | Some c \<Rightarrow> c)"

definition Counter :: "'a list \<Rightarrow> ('a \<times> int) list" where
  "Counter xs = foldl (\<lambda>m x. AList.update x (counter_get m x + 1) m) [] xs"

definition counter_and :: "('a \<times> int) list \<Rightarrow> ('a \<times> int) list \<Rightarrow> ('a \<times> int) list" where
  "counter_and a b =
     filter (\<lambda>(elem, newcount). 0 < newcount)
       (map (\<lambda>(elem, count). (elem, min count (counter_get b elem))) a)"

definition counter_values_sum :: "('a \<times> int) list \<Rightarrow> int" where
  "counter_values_sum m = sum_list (map snd m)"

record RenamePredictionEvaluator =
  ground_truth :: pystr
  prediction :: pystr
  gt_counts :: "(pystr \<times> int) list"
  pred_counts :: "(pystr \<times> int) list"
  intersection :: "(pystr \<times> int) list"
  intersection_total :: int
  pred_total :: int
  gt_total :: int

definition new_evaluator :: "builtins \<Rightarrow> pystr \<Rightarrow> pystr \<Rightarrow> RenamePredictionEvaluator" where
  \<comment> \<open>\<open>RenamePredictionEvaluator.__init__\<close>\<close>
  "new_evaluator B gt pred =
     (let gt_tokens_list = tokenize B gt;
          pred_tokens_list = tokenize B pred;
          gc = Counter gt_tokens_list;
          pc = Counter pred_tokens_list;
          inter = counter_and gc pc
      in \<lparr> ground_truth = gt, prediction = pred, gt_counts = gc, pred_counts = pc,
           intersection = inter,
           intersection_total = counter_values_sum inter,
           pred_total = counter_values_sum pc,
           gt_total = counter_values_sum gc \<rparr>)"

definition calculate_exact_match :: "RenamePredictionEvaluator \<Rightarrow> int" where
  "calculate_exact_match E = (if ground_truth E = prediction E then 1 else 0)"

definition calculate_edit_similarity :: "RenamePredictionEvaluator \<Rightarrow> py_error + real" where
  "calculate_edit_similarity E = calculate_similarity (ground_truth E) (prediction E)"

definition calculate_token_precision :: "RenamePredictionEvaluator \<Rightarrow> py_error + real" where
  "calculate_token_precision E =
     (if pred_total E = 0 then Inr 0
      else py_truediv (real_of_int (intersection_total E)) (real_of_int (pred_total E)))"

definition calculate_token_recall :: "RenamePredictionEvaluator \<Rightarrow> py_error + real" where
  "calculate_token_recall E =
     (if gt_total E = 0 then Inr 0
      else py_truediv (real_of_int (intersection_total E)) (real_of_int (gt_total E)))"

definition calculate_token_f1 :: "RenamePredictionEvaluator \<Rightarrow> py_error + real" where
  "calculate_token_f1 E =
     (if gt_total E = 0 \<and> pred_total E = 0 then Inr 1
      else then_do (calculate_token_precision E) (\<lambda>p.
           then_do (calculate_token_recall E) (\<lambda>r.
             if p + r = 0 then Inr 0 else py_truediv (2 * (p * r)) (p + r))))"

definition evaluate_metrics :: "RenamePredictionEvaluator \<Rightarrow> py_error + MetricResult" where
  \<comment> \<open>\<open>RenamePredictionEvaluator.evaluate\<close>\<close>
  "evaluate_metrics E =
     then_do (calculate_edit_similarity E) (\<lambda>es.
     then_do (calculate_token_precision E) (\<lambda>tp.
     then_do (calculate_token_recall E) (\<lambda>tr.
     then_do (calculate_token_f1 E) (\<lambda>tf.
       Inr \<lparr> exact_match = calculate_exact_match E, edit_similarity = es,
             token_precision = tp, token_recall = tr, token_f1 = tf \<rparr>))))"

definition evaluate :: "builtins \<Rightarrow> pystr \<Rightarrow> pystr \<Rightarrow> py_error + MetricResult" where
  \<comment> \<open>\<open>RenamePredictionEvaluator(ground_truth, prediction).evaluate()\<close>\<close>
  "evaluate B gt pred = evaluate_metrics (new_evaluator B gt pred)"

section \<open>BatchResultProcessor\<close>

text \<open>
  Console output (the progress bar and the warnings of \<open>_is_valid_suggestion\<close>) is
  not part of the model; \<open>main\<close> below records its own reports.
\<close>

definition dict_get :: "json \<Rightarrow> pystr \<Rightarrow> json \<Rightarrow> py_error + json" where
  \<comment> \<open>\<open>d.get(key, default)\<close>; only a dict has \<open>get\<close>\<close>
  "dict_get d k dflt =
     (case d of
        JObj kv \<Rightarrow> Inr (case map_of kv k of None \<Rightarrow> dflt | Some v \<Rightarrow> v)
      | _ \<Rightarrow> Inl AttributeError)"

definition dict_item :: "json \<Rightarrow> pystr \<Rightarrow> py_error + json" where
  \<comment> \<open>\<open>d[key]\<close> for a string key\<close>
  "dict_item d k =
     (case d of
        JObj kv \<Rightarrow> (case map_of kv k of None \<Rightarrow> Inl KeyError | Some v \<Rightarrow> Inr v)
      | _ \<Rightarrow> Inl TypeError)"

definition dict_set :: "json \<Rightarrow> pystr \<Rightarrow> json \<Rightarrow> py_error + json" where
  \<comment> \<open>\<open>d[key] = v\<close> for a string key; the dict after the assignment\<close>
  "dict_set d k v =
     (case d of JObj kv \<Rightarrow> Inr (JObj (AList.update k v kv)) | _ \<Rightarrow> Inl TypeError)"

definition py_len :: "json \<Rightarrow> py_error + nat" where
  "py_len v =
     (case v of
        JList xs \<Rightarrow> Inr (length xs)
      | JObj kv \<Rightarrow> Inr (length kv)
      | JStr s \<Rightarrow> Inr (length s)
      | _ \<Rightarrow> Inl TypeError)"

definition py_iter :: "json \<Rightarrow> py_error + json list" where
  \<comment> \<open>the items a \<open>for\<close> loop sees: list elements, dict keys, characters\<close>
  "py_iter v =
     (case v of
        JList xs \<Rightarrow> Inr xs
      | JObj kv \<Rightarrow> Inr (map (\<lambda>(k, _). JStr k) kv)
      | JStr s \<Rightarrow> Inr (map (\<lambda>c. JStr [c]) s)
      | _ \<Rightarrow> Inl TypeError)"

definition py_slice_to :: "'a list \<Rightarrow> int \<Rightarrow> 'a list" where
  \<comment> \<open>\<open>xs[:n]\<close>; a negative \<open>n\<close> counts from the end\<close>
  "py_slice_to xs n =
     (if 0 \<le> n then take (nat n) xs else take (length xs - nat (- n)) xs)"

definition is_valid_suggestion :: "json \<Rightarrow> bool" where
  "is_valid_suggestion suggestion =
     (case suggestion of
        JObj kv \<Rightarrow>
          (case map_of kv (S ''name'') of
             Some v \<Rightarrow> (if v \<noteq> JNull then True else False)
           | None \<Rightarrow> False)
      | _ \<Rightarrow> False)"

text \<open>The loop of \<open>_extract_valid_candidates\<close> over the sliced list.\<close>

fun extract_loop :: "builtins \<Rightarrow> json list \<Rightarrow> pystr list \<Rightarrow> py_error + pystr list" where
  "extract_loop B [] valid_names = Inr valid_names"
| "extract_loop B (sugg # rest) valid_names =
     (if is_valid_suggestion sugg
      then then_do (dict_item sugg (S ''name''))
             (\<lambda>v. extract_loop B rest (valid_names @ [py_str B v]))
      else extract_loop B rest valid_names)"

definition extract_valid_candidates ::
  "builtins \<Rightarrow> json \<Rightarrow> int \<Rightarrow> py_error + pystr list" where
  "extract_valid_candidates B suggestions limit =
     (case suggestions of
        JList xs \<Rightarrow> extract_loop B (py_slice_to xs limit) []
      | _ \<Rightarrow> Inr [])"

definition selection_key :: "MetricResult \<Rightarrow> real \<times> int \<times> real \<times> real" where
  \<comment> \<open>the key tuple of \<open>_determine_best_candidate\<close>; tuples compare lexicographically\<close>
  "selection_key res = (token_f1 res, exact_match res, edit_similarity res, token_precision res)"

text \<open>\<open>max(items, key=key)\<close>: the running maximum is replaced only by a strictly larger key.\<close>

fun py_max_key :: "('a \<Rightarrow> 'k::linorder) \<Rightarrow> 'a \<Rightarrow> 'a list \<Rightarrow> 'a" where
  "py_max_key key best [] = best"
| "py_max_key key best (x # xs) = py_max_key key (if key best < key x then x else best) xs"

definition determine_best_candidate :: "MetricResult list \<Rightarrow> MetricResult" where
  "determine_best_candidate results =
     (case results of
        [] \<Rightarrow> MetricResult_empty
      | r # rs \<Rightarrow> py_max_key selection_key r rs)"

record accumulators =
  top_1 :: MetricResult
  top_5 :: MetricResult

definition init_zero_metrics :: MetricResult where
  \<comment> \<open>the dict of five zeros; the record's fields are its keys\<close>
  "init_zero_metrics =
     \<lparr> exact_match = 0, edit_similarity = 0, token_precision = 0,
       token_recall = 0, token_f1 = 0 \<rparr>"

definition metric_dict :: "MetricResult \<Rightarrow> json" where
  \<comment> \<open>\<open>asdict(metric)\<close>, and a dict of sums as JSON\<close>
  "metric_dict m =
     JObj [(S ''exact_match'', JInt (exact_match m)),
           (S ''edit_similarity'', JFloat (edit_similarity m)),
           (S ''token_precision'', JFloat (token_precision m)),
           (S ''token_recall'', JFloat (token_recall m)),
           (S ''token_f1'', JFloat (token_f1 m))]"

definition update_accumulator :: "MetricResult \<Rightarrow> MetricResult \<Rightarrow> MetricResult" where
  "update_accumulator acc metric =
     \<lparr> exact_match = exact_match acc + exact_match metric,
       edit_similarity = edit_similarity acc + edit_similarity metric,
       token_precision = token_precision acc + token_precision metric,
       token_recall = token_recall acc + token_recall metric,
       token_f1 = token_f1 acc + token_f1 metric \<rparr>"

definition get_avg_dict :: "nat \<Rightarrow> MetricResult \<Rightarrow> py_error + json" where
  \<comment> \<open>\<open>{k: v / self.total_items for k, v in acc.items()}\<close>\<close>
  "get_avg_dict total_items acc =
     then_do (py_truediv (real_of_int (exact_match acc)) (real total_items)) (\<lambda>em.
     then_do (py_truediv (edit_similarity acc) (real total_items)) (\<lambda>es.
     then_do (py_truediv (token_precision acc) (real total_items)) (\<lambda>tp.
     then_do (py_truediv (token_recall acc) (real total_items)) (\<lambda>tr.
     then_do (py_truediv (token_f1 acc) (real total_items)) (\<lambda>tf.
       Inr (JObj [(S ''exact_match'', JFloat em),
                  (S ''edit_similarity'', JFloat es),
                  (S ''token_precision'', JFloat tp),
                  (S ''token_recall'', JFloat tr),
                  (S ''token_f1'', JFloat tf)]))))))"

definition calculate_final_averages :: "nat \<Rightarrow> accumulators \<Rightarrow> py_error + json" where
  "calculate_final_averages total_items acc =
     (if total_items = 0
      then let zero_metrics = metric_dict init_zero_metrics
           in Inr (JObj [(S ''top_1_performance_metrics'', zero_metrics),
                         (S ''top_5_performance_metrics'', zero_metrics)])
      else then_do (get_avg_dict total_items (top_1 acc)) (\<lambda>avg1.
           then_do (get_avg_dict total_items (top_5 acc)) (\<lambda>avg5.
             Inr (JObj [(S ''top_1_performance_metrics'', avg1),
                        (S ''top_5_performance_metrics'', avg5)]))))"

definition top_1_calculation :: "builtins \<Rightarrow> pystr \<Rightarrow> json \<Rightarrow> py_error + MetricResult" where
  \<comment> \<open>the block "1. Top-1 Calculation" of \<open>process\<close>\<close>
  "top_1_calculation B gt raw_suggestions =
     (case raw_suggestions of
        JList (first_suggestion # _) \<Rightarrow>
          if is_valid_suggestion first_suggestion
          then then_do (dict_item first_suggestion (S ''name''))
                 (\<lambda>v. evaluate B gt (py_str B v))
          else Inr MetricResult_empty
      | _ \<Rightarrow> Inr MetricResult_empty)"

fun evaluate_all :: "builtins \<Rightarrow> pystr \<Rightarrow> pystr list \<Rightarrow> py_error + MetricResult list" where
  \<comment> \<open>the loop filling \<open>top_5_results\<close>\<close>
  "evaluate_all B gt [] = Inr []"
| "evaluate_all B gt (pred # rest) =
     then_do (evaluate B gt pred) (\<lambda>m.
     then_do (evaluate_all B gt rest) (\<lambda>ms. Inr (m # ms)))"

definition process_item ::
  "builtins \<Rightarrow> json \<Rightarrow> accumulators \<Rightarrow> py_error + (json \<times> accumulators)" where
  \<comment> \<open>one pass of the loop of \<open>process\<close>: the record with its metrics, the new sums\<close>
  "process_item B item acc =
     then_do (dict_get item (S ''new_name'') JNull) (\<lambda>raw_gt_val.
     let gt = (if raw_gt_val \<noteq> JNull then py_str B raw_gt_val else []) in
     then_do (dict_get item (S ''suggestions'') (JList [])) (\<lambda>raw_suggestions.
     then_do (top_1_calculation B gt raw_suggestions) (\<lambda>top_1_metric.
     then_do (extract_valid_candidates B raw_suggestions 5) (\<lambda>valid_candidates.
     then_do (evaluate_all B gt valid_candidates) (\<lambda>top_5_results.
     let top_5_metric = determine_best_candidate top_5_results in
     then_do (dict_set item (S ''performance_metrics'')
                (JObj [(S ''top_1_performance_metrics'', metric_dict top_1_metric),
                       (S ''top_5_performance_metrics'', metric_dict top_5_metric)]))
       (\<lambda>item'.
          Inr (item', \<lparr> top_1 = update_accumulator (top_1 acc) top_1_metric,
                        top_5 = update_accumulator (top_5 acc) top_5_metric \<rparr>)))))))"

fun process_loop ::
  "builtins \<Rightarrow> json list \<Rightarrow> accumulators \<Rightarrow> py_error + (json list \<times> accumulators)" where
  "process_loop B [] acc = Inr ([], acc)"
| "process_loop B (item # rest) acc =
     then_do (process_item B item acc) (\<lambda>(item', acc').
     then_do (process_loop B rest acc') (\<lambda>(rest', acc'').
       Inr (item' # rest', acc'')))"

record BatchResultProcessor =
  full_json_data :: json
  results :: json
  total_items :: nat
  accumulators :: accumulators

definition new_processor :: "json \<Rightarrow> py_error + BatchResultProcessor" where
  \<comment> \<open>\<open>BatchResultProcessor.__init__\<close>\<close>
  "new_processor json_data =
     then_do (dict_get json_data (S ''results'') (JList [])) (\<lambda>res.
     then_do (py_len res) (\<lambda>n.
       Inr \<lparr> full_json_data = json_data, results = res, total_items = n,
             accumulators = \<lparr> top_1 = init_zero_metrics, top_5 = init_zero_metrics \<rparr> \<rparr>))"

record process_result =
  final_output :: json
  aggregates :: json
  annotated :: "json list"

definition process :: "builtins \<Rightarrow> BatchResultProcessor \<Rightarrow> py_error + process_result" where
  \<comment> \<open>returns \<open>(final_output, aggregates)\<close>; \<open>annotated\<close> is the record list as the
      loop leaves it in memory\<close>
  "process B P =
     then_do (py_iter (results P)) (\<lambda>items.
     then_do (process_loop B items (accumulators P)) (\<lambda>(items', acc).
     then_do (calculate_final_averages (total_items P) acc) (\<lambda>aggs.
       Inr \<lparr> final_output = JObj [(S ''aggregate_performance_metrics'', aggs)],
             aggregates = aggs, annotated = items' \<rparr>)))"

section \<open>main\<close>

text \<open>
  The input of \<open>main\<close> is what it finds at the path: no file; a file that cannot be
  opened or read (\<open>OSError\<close>); a file whose bytes are not UTF-8, so that reading it
  inside \<open>json.load\<close> raises \<open>UnicodeDecodeError\<close>; text that \<open>json.load\<close> rejects with
  \<open>JSONDecodeError\<close>; or a parsed document. Its outcome is the exit code of the
  process, what it reported, and the document it wrote, if any.
\<close>

datatype file_input = Missing | Unreadable | Undecodable | Corrupt | Document json

datatype report =
  FileDoesNotExist | FailedToDecode | UnexpectedError py_error
  | AggregateMetrics json | ResultsSaved

record outcome =
  exit_code :: int
  reports :: "report list"
  written :: "json option"

definition contains_results :: "json \<Rightarrow> py_error + bool" where
  \<comment> \<open>\<open>"results" in data\<close>\<close>
  "contains_results data =
     (case data of
        JObj kv \<Rightarrow> Inr (S ''results'' \<in> set (map fst kv))
      | JList xs \<Rightarrow> Inr (JStr (S ''results'') \<in> set xs)
      | JStr s \<Rightarrow> Inr (sublist (S ''results'') s)
      | _ \<Rightarrow> Inl TypeError)"

definition run_document :: "builtins \<Rightarrow> json \<Rightarrow> py_error + process_result" where
  \<comment> \<open>the body of the \<open>try\<close> once the document is loaded\<close>
  "run_document B data =
     then_do (contains_results data) (\<lambda>present.
       if \<not> present then Inl ValueError
       else then_do (new_processor data) (\<lambda>processor. process B processor))"

definition main :: "builtins \<Rightarrow> file_input \<Rightarrow> outcome" where
  "main B inp =
     (case inp of
        Missing \<Rightarrow> \<lparr> exit_code = 1, reports = [FileDoesNotExist], written = None \<rparr>
      | Unreadable \<Rightarrow>
          \<lparr> exit_code = 0, reports = [UnexpectedError OSError], written = None \<rparr>
      | Undecodable \<Rightarrow>
          \<lparr> exit_code = 0, reports = [UnexpectedError UnicodeDecodeError], written = None \<rparr>
      | Corrupt \<Rightarrow> \<lparr> exit_code = 0, reports = [FailedToDecode], written = None \<rparr>
      | Document data \<Rightarrow>
          (case run_document B data of
             Inl e \<Rightarrow> \<lparr> exit_code = 0, reports = [UnexpectedError e], written = None \<rparr>
           | Inr r \<Rightarrow> \<lparr> exit_code = 0,
                        reports = [AggregateMetrics (aggregates r), ResultsSaved],
                        written = Some (final_output r) \<rparr>))"

section \<open>Reference definitions\<close>

text \<open>
  The selector as the specification words it: keep the valid entries of the whole
  list, in rank order, and stop after \<open>cap\<close> of them.
\<close>

definition suggestion_name :: "json \<Rightarrow> json" where
  \<comment> \<open>the value under \<open>name\<close> of a suggestion that has one\<close>
  "suggestion_name s =
     (case s of
        JObj kv \<Rightarrow> (case map_of kv (S ''name'') of Some v \<Rightarrow> v | None \<Rightarrow> JNull)
      | _ \<Rightarrow> JNull)"

definition spec_collect_candidates :: "builtins \<Rightarrow> json list \<Rightarrow> nat \<Rightarrow> pystr list" where
  "spec_collect_candidates B xs cap =
     take cap (map (\<lambda>s. py_str B (suggestion_name s)) (filter is_valid_suggestion xs))"

text \<open>
  The priority order of the specification on metric tuples: \<open>spec_better a b\<close> says
  that \<open>a\<close> ranks strictly above \<open>b\<close>.
\<close>

definition spec_better :: "MetricResult \<Rightarrow> MetricResult \<Rightarrow> bool" where
  "spec_better a b =
     (token_f1 b < token_f1 a \<or>
      (token_f1 a = token_f1 b \<and>
       (exact_match b < exact_match a \<or>
        (exact_match a = exact_match b \<and>
         (edit_similarity b < edit_similarity a \<or>
          (edit_similarity a = edit_similarity b \<and>
           token_precision b < token_precision a))))))"

text \<open>
  Token bags: \<open>count_list ts t\<close> is the count of token \<open>t\<close> in the bag of the sequence
  \<open>ts\<close>. \<open>I\<close>, \<open>|G|\<close> and \<open>|P|\<close> are the sums of the specification.
\<close>

definition spec_bag_size :: "'a list \<Rightarrow> nat" where
  "spec_bag_size ts = (\<Sum>t\<in>set ts. count_list ts t)"

definition spec_bag_common :: "'a list \<Rightarrow> 'a list \<Rightarrow> nat" where
  "spec_bag_common g p = (\<Sum>t\<in>set g \<union> set p. min (count_list g t) (count_list p t))"

definition spec_token_precision :: "'a list \<Rightarrow> 'a list \<Rightarrow> real" where
  "spec_token_precision g p =
     (if 0 < spec_bag_size p then real (spec_bag_common g p) / real (spec_bag_size p) else 0)"

definition spec_token_recall :: "'a list \<Rightarrow> 'a list \<Rightarrow> real" where
  "spec_token_recall g p =
     (if 0 < spec_bag_size g then real (spec_bag_common g p) / real (spec_bag_size g) else 0)"

definition spec_token_f1 :: "'a list \<Rightarrow> 'a list \<Rightarrow> real" where
  "spec_token_f1 g p =
     (let pr = spec_token_precision g p; rc = spec_token_recall g p
      in if spec_bag_size g = 0 \<and> spec_bag_size p = 0 then 1
         else if pr + rc = 0 then 0
         else 2 * pr * rc / (pr + rc))"

definition spec_similarity :: "'a list \<Rightarrow> 'a list \<Rightarrow> real" where
  "spec_similarity a b =
     (if a = b then 1
      else 1 - real (levenshtein_spec a b) / real (max (length a) (length b)))"

text \<open>
  The two metric tuples of one record, as the loop body of \<open>process\<close> computes them
  from the record's fields, the field-wise sum of a list of tuples, and the dict of
  averages of the specification: every field of the sum divided by the count.
\<close>

definition record_ground_truth :: "builtins \<Rightarrow> (pystr \<times> json) list \<Rightarrow> pystr" where
  "record_ground_truth B kv =
     (case map_of kv (S ''new_name'') of
        None \<Rightarrow> []
      | Some v \<Rightarrow> (if v \<noteq> JNull then py_str B v else []))"

definition record_suggestions :: "(pystr \<times> json) list \<Rightarrow> json" where
  "record_suggestions kv =
     (case map_of kv (S ''suggestions'') of None \<Rightarrow> JList [] | Some v \<Rightarrow> v)"

definition record_top_1 :: "builtins \<Rightarrow> (pystr \<times> json) list \<Rightarrow> MetricResult" where
  "record_top_1 B kv =
     (case top_1_calculation B (record_ground_truth B kv) (record_suggestions kv) of
        Inr m \<Rightarrow> m
      | Inl e \<Rightarrow> MetricResult_empty)"

definition record_top_5 :: "builtins \<Rightarrow> (pystr \<times> json) list \<Rightarrow> MetricResult" where
  "record_top_5 B kv =
     (case then_do (extract_valid_candidates B (record_suggestions kv) 5)
             (evaluate_all B (record_ground_truth B kv)) of
        Inr ms \<Rightarrow> determine_best_candidate ms
      | Inl e \<Rightarrow> MetricResult_empty)"

definition field_sums :: "MetricResult list \<Rightarrow> MetricResult" where
  "field_sums ms =
     \<lparr> exact_match = sum_list (map exact_match ms),
       edit_similarity = sum_list (map edit_similarity ms),
       token_precision = sum_list (map token_precision ms),
       token_recall = sum_list (map token_recall ms),
       token_f1 = sum_list (map token_f1 ms) \<rparr>"

definition spec_average_dict :: "nat \<Rightarrow> MetricResult \<Rightarrow> json" where
  "spec_average_dict n acc =
     JObj [(S ''exact_match'', JFloat (real_of_int (exact_match acc) / real n)),
           (S ''edit_similarity'', JFloat (edit_similarity acc / real n)),
           (S ''token_precision'', JFloat (token_precision acc / real n)),
           (S ''token_recall'', JFloat (token_recall acc / real n)),
           (S ''token_f1'', JFloat (token_f1 acc / real n))]"

definition spec_zero_dict :: json where
  "spec_zero_dict =
     JObj [(S ''exact_match'', JInt 0), (S ''edit_similarity'', JFloat 0),
           (S ''token_precision'', JFloat 0), (S ''token_recall'', JFloat 0),
           (S ''token_f1'', JFloat 0)]"

text \<open>
  Vocabulary of the proofs about the dynamic programme: \<open>prefix_distance u v\<close> is the
  distance of two prefixes, \<open>dp_row u s2 k\<close> the first \<open>k\<close> cells of the row that the
  loop holds once it has consumed the prefix \<open>u\<close> of \<open>s1\<close>.
\<close>

definition prefix_distance :: "'a list \<Rightarrow> 'a list \<Rightarrow> nat" where
  "prefix_distance xs ys = levenshtein_spec (rev xs) (rev ys)"

definition dp_row :: "'a list \<Rightarrow> 'a list \<Rightarrow> nat \<Rightarrow> int list" where
  "dp_row u s2 k = map (\<lambda>j. int (prefix_distance u (take j s2))) [0..<k]"

section \<open>Basic facts\<close>

lemma then_do_Inr [simp]: "then_do (Inr x) f = f x"
  by (simp add: then_do_def)

lemma then_do_Inl [simp]: "then_do (Inl e) f = Inl e"
  by (simp add: then_do_def)

lemma py_index_nat: "i < length xs \<Longrightarrow> py_index xs (int i) = Inr (xs ! i)"
  by (simp add: py_index_def)

lemma py_index_last: "xs \<noteq> [] \<Longrightarrow> py_index xs (- 1) = Inr (last xs)"
proof -
  assume ne: "xs \<noteq> []"
  then have len: "Suc 0 \<le> length xs" by (cases xs) simp_all
  then have "nat (int (length xs) + (- 1)) = length xs - 1" by linarith
  with ne len show ?thesis
    by (simp add: py_index_def last_conv_nth)
qed

lemma levenshtein_spec_Nil2 [simp]: "levenshtein_spec xs [] = length xs"
  by (cases xs) simp_all

lemma levenshtein_spec_sym: "levenshtein_spec xs ys = levenshtein_spec ys xs"
  by (induction xs ys rule: levenshtein_spec.induct) (simp_all add: min.commute eq_commute)

lemma edits_levenshtein_spec: "edits xs ys (levenshtein_spec xs ys)"
proof (induction xs ys rule: levenshtein_spec.induct)
  case (1 ys)
  show ?case by (induction ys) (auto intro: edits.intros)
next
  case (2 x xs)
  have "edits zs [] (length zs)" for zs :: "'a list"
    by (induction zs) (auto intro: edits.intros)
  from this [of "x # xs"] show ?case by simp
next
  case (3 x xs y ys)
  let ?a = "levenshtein_spec xs (y # ys) + 1"
  let ?b = "levenshtein_spec (x # xs) ys + 1"
  let ?c = "levenshtein_spec xs ys + (if x = y then 0 else 1)"
  have a: "edits (x # xs) (y # ys) ?a" using 3(1) by (auto intro: edits.intros)
  have b: "edits (x # xs) (y # ys) ?b" using 3(2) by (auto intro: edits.intros)
  have c: "edits (x # xs) (y # ys) ?c" using 3(3) by (auto intro: edits.intros)
  show ?case using a b c by (simp add: min_def)
qed

lemma levenshtein_spec_delete: "levenshtein_spec (x # xs) ys \<le> Suc (levenshtein_spec xs ys)"
  by (cases ys) simp_all

lemma levenshtein_spec_insert: "levenshtein_spec xs (y # ys) \<le> Suc (levenshtein_spec xs ys)"
  by (cases xs) simp_all

lemma levenshtein_spec_least: "edits xs ys n \<Longrightarrow> levenshtein_spec xs ys \<le> n"
proof (induction rule: edits.induct)
  case edits_Nil
  show ?case by simp
next
  case (edits_keep xs ys n x)
  then show ?case by (simp add: min.coboundedI2)
next
  case (edits_subst xs ys n x y)
  then show ?case by (simp add: min.coboundedI2)
next
  case (edits_delete xs ys n x)
  then show ?case using levenshtein_spec_delete [of x xs ys] by simp
next
  case (edits_insert xs ys n y)
  then show ?case using levenshtein_spec_insert [of xs y ys] by simp
qed

lemma edits_snoc_keep: "edits xs ys n \<Longrightarrow> edits (xs @ [a]) (ys @ [a]) n"
  by (induction rule: edits.induct) (auto intro: edits.intros)

lemma edits_snoc_subst: "edits xs ys n \<Longrightarrow> edits (xs @ [a]) (ys @ [b]) (Suc n)"
  by (induction rule: edits.induct) (auto intro: edits.intros)

lemma edits_snoc_delete: "edits xs ys n \<Longrightarrow> edits (xs @ [a]) ys (Suc n)"
  by (induction rule: edits.induct) (auto intro: edits.intros)

lemma edits_snoc_insert: "edits xs ys n \<Longrightarrow> edits xs (ys @ [b]) (Suc n)"
  by (induction rule: edits.induct) (auto intro: edits.intros)

lemma edits_rev: "edits xs ys n \<Longrightarrow> edits (rev xs) (rev ys) n"
  by (induction rule: edits.induct)
     (auto intro: edits.intros edits_snoc_keep edits_snoc_subst edits_snoc_delete edits_snoc_insert)

lemma levenshtein_spec_rev: "levenshtein_spec (rev xs) (rev ys) = levenshtein_spec xs ys"
proof (rule antisym)
  show "levenshtein_spec (rev xs) (rev ys) \<le> levenshtein_spec xs ys"
    by (rule levenshtein_spec_least) (rule edits_rev, rule edits_levenshtein_spec)
  have "edits (rev (rev xs)) (rev (rev ys)) (levenshtein_spec (rev xs) (rev ys))"
    by (rule edits_rev) (rule edits_levenshtein_spec)
  then show "levenshtein_spec xs ys \<le> levenshtein_spec (rev xs) (rev ys)"
    by (simp add: levenshtein_spec_least)
qed

section \<open>The dynamic programme computes the Levenshtein distance\<close>

lemma prefix_distance_Nil2 [simp]: "prefix_distance xs [] = length xs"
  by (simp add: prefix_distance_def)

lemma prefix_distance_Nil1 [simp]: "prefix_distance [] ys = length ys"
  by (simp add: prefix_distance_def)

lemma prefix_distance_snoc:
  "prefix_distance (xs @ [x]) (ys @ [y]) =
     min (min (prefix_distance xs (ys @ [y]) + 1) (prefix_distance (xs @ [x]) ys + 1)) (prefix_distance xs ys + (if x = y then 0 else 1))"
  by (simp add: prefix_distance_def)

lemma length_dp_row [simp]: "length (dp_row u s2 k) = k"
  by (simp add: dp_row_def)

lemma nth_dp_row [simp]: "j < k \<Longrightarrow> dp_row u s2 k ! j = int (prefix_distance u (take j s2))"
  by (simp add: dp_row_def)

lemma dp_row_Suc: "dp_row u s2 (Suc k) = dp_row u s2 k @ [int (prefix_distance u (take k s2))]"
  by (simp add: dp_row_def)

lemma levenshtein_inner_row:
  "s2 = done @ todo \<Longrightarrow>
   levenshtein_inner c1 (dp_row u s2 (Suc (length s2))) (enumerate (length done) todo)
       (dp_row (u @ [c1]) s2 (Suc (length done)))
     = Inr (dp_row (u @ [c1]) s2 (Suc (length s2)))"
proof (induction todo arbitrary: "done")
  case Nil
  then show ?case by simp
next
  case (Cons c2 rest)
  let ?j = "length done"
  have s2: "s2 = (done @ [c2]) @ rest" using Cons.prems by simp
  have lt: "?j < length s2" using Cons.prems by simp
  have t0: "take ?j s2 = done" using Cons.prems by simp
  have t1: "take (Suc ?j) s2 = done @ [c2]" using Cons.prems by simp
  have cell: "min (int (prefix_distance u (done @ [c2])) + 1)
                (min (int (prefix_distance (u @ [c1]) done) + 1)
                     (int (prefix_distance u done) + (if c1 \<noteq> c2 then 1 else 0)))
              = int (prefix_distance (u @ [c1]) (done @ [c2]))"
    by (simp add: prefix_distance_snoc) linarith
  have p1: "py_index (dp_row u s2 (Suc (length s2))) (int ?j + 1) = Inr (int (prefix_distance u (done @ [c2])))"
    using lt py_index_nat [of "Suc ?j" "dp_row u s2 (Suc (length s2))"] by (simp add: t1 add.commute)
  have c0: "py_index (dp_row (u @ [c1]) s2 (Suc ?j)) (int ?j) = Inr (int (prefix_distance (u @ [c1]) done))"
    by (simp add: py_index_nat t0)
  have p0: "py_index (dp_row u s2 (Suc (length s2))) (int ?j) = Inr (int (prefix_distance u done))"
    using lt by (simp add: py_index_nat t0)
  have "levenshtein_inner c1 (dp_row u s2 (Suc (length s2))) (enumerate ?j (c2 # rest))
          (dp_row (u @ [c1]) s2 (Suc ?j))
        = levenshtein_inner c1 (dp_row u s2 (Suc (length s2))) (enumerate (Suc ?j) rest)
          (dp_row (u @ [c1]) s2 (Suc (Suc ?j)))"
    by (simp only: enumerate_simps levenshtein_inner.simps p1 c0 p0 then_do_Inr Let_def cell
          dp_row_Suc [of "u @ [c1]" s2 "Suc ?j"] t1)
  also have "\<dots> = Inr (dp_row (u @ [c1]) s2 (Suc (length s2)))"
    using Cons.IH [OF s2] by simp
  finally show ?case .
qed

lemma levenshtein_outer_row:
  "s1 = done @ todo \<Longrightarrow>
   levenshtein_outer (enumerate (length done) todo) s2 (dp_row done s2 (Suc (length s2)))
     = Inr (dp_row s1 s2 (Suc (length s2)))"
proof (induction todo arbitrary: "done")
  case Nil
  then show ?case by simp
next
  case (Cons c1 rest)
  have s1: "s1 = (done @ [c1]) @ rest" using Cons.prems by simp
  have first: "[int (length done) + 1] = dp_row (done @ [c1]) s2 (Suc (length ([]::'a list)))"
    by (simp add: dp_row_def)
  have "levenshtein_inner c1 (dp_row done s2 (Suc (length s2))) (enumerate 0 s2)
          [int (length done) + 1] = Inr (dp_row (done @ [c1]) s2 (Suc (length s2)))"
    unfolding first using levenshtein_inner_row [of s2 "[]" s2 c1 "done"] by simp
  then show ?case using Cons.IH [OF s1] by (simp add: enumerate_simps)
qed

lemma dp_row_init: "map int [0..<length s2 + 1] = dp_row [] s2 (Suc (length s2))"
  by (simp add: dp_row_def)

lemma levenshtein_core:
  "s2 \<noteq> [] \<Longrightarrow>
   then_do (levenshtein_outer (enumerate 0 s1) s2 (map int [0..<length s2 + 1]))
     (\<lambda>previous_row. py_index previous_row (- 1)) = Inr (int (levenshtein_spec s1 s2))"
proof -
  have "levenshtein_outer (enumerate 0 s1) s2 (dp_row [] s2 (Suc (length s2)))
          = Inr (dp_row s1 s2 (Suc (length s2)))"
    using levenshtein_outer_row [of s1 "[]" s1 s2] by simp
  moreover have "last (dp_row s1 s2 (Suc (length s2))) = int (levenshtein_spec s1 s2)"
    by (simp add: dp_row_Suc prefix_distance_def levenshtein_spec_rev)
  moreover have "dp_row s1 s2 (Suc (length s2)) \<noteq> []"
    by (simp add: dp_row_Suc)
  ultimately show ?thesis
    unfolding dp_row_init by (simp add: py_index_last)
qed

lemma calculate_levenshtein_distance_eq:
  "calculate_levenshtein_distance a b = Inr (int (levenshtein_spec a b))"
proof (induction a b rule: calculate_levenshtein_distance.induct)
  case (1 s1 s2)
  show ?case
  proof (cases "length s1 < length s2")
    case True
    then show ?thesis
      using 1 by (subst calculate_levenshtein_distance.simps) (simp add: levenshtein_spec_sym [of s1 s2])
  next
    case False
    show ?thesis
    proof (cases "s2 = []")
      case True
      then show ?thesis by (subst calculate_levenshtein_distance.simps) simp
    next
      case nonempty: False
      then show ?thesis
        using False levenshtein_core [OF nonempty, of s1]
        by (subst calculate_levenshtein_distance.simps) simp
    qed
  qed
qed

text \<open>
  C4. For all strings \<open>a\<close> and \<open>b\<close>, \<open>calculate_levenshtein_distance\<close> returns (it
  never raises) the classic Levenshtein distance: the value of the textbook recurrence,
  which is the cost of some edit script from \<open>a\<close> to \<open>b\<close> with insertions, deletions
  and substitutions at 1 each, and no script is cheaper; it is a non-negative integer.
\<close>

theorem levenshtein_distance_classic:
  "calculate_levenshtein_distance a b = Inr (int (levenshtein_spec a b)) \<and>
   (0::int) \<le> int (levenshtein_spec a b) \<and>
   edits a b (levenshtein_spec a b) \<and>
   (\<forall>n. edits a b n \<longrightarrow> levenshtein_spec a b \<le> n)"
  by (simp add: calculate_levenshtein_distance_eq edits_levenshtein_spec levenshtein_spec_least)

theorem levenshtein_distance_classic_witness:
  "edits ''ab'' ''b'' 1 \<and> levenshtein_spec ''ab'' ''b'' \<le> 1 \<and>
   calculate_levenshtein_distance ''ab'' ''b'' = Inr 1"
proof -
  have e: "edits ''ab'' ''b'' (Suc 0)"
    by (rule edits_delete, rule edits_keep, rule edits_Nil)
  have v: "levenshtein_spec ''ab'' ''b'' = 1"
    by simp
  show ?thesis
    using e v levenshtein_distance_classic [of "''ab''" "''b''"] by simp
qed

section \<open>Oracle selection\<close>

lemma spec_better_key: "spec_better a b \<longleftrightarrow> selection_key b < selection_key a"
  by (auto simp: spec_better_def selection_key_def less_prod_def)

lemma py_max_key_split:
  "(\<forall>x\<in>set pre0. key x < key best) \<Longrightarrow> (\<forall>x\<in>set mid. key x \<le> key best) \<Longrightarrow>
   \<exists>pre post. pre0 @ best # mid @ xs = pre @ py_max_key key best xs # post \<and>
      (\<forall>x\<in>set pre. key x < key (py_max_key key best xs)) \<and>
      (\<forall>x\<in>set post. key x \<le> key (py_max_key key best xs))"
proof (induction xs arbitrary: pre0 best mid)
  case Nil
  then show ?case by auto
next
  case (Cons x xs)
  show ?case
  proof (cases "key best < key x")
    case True
    have a: "\<forall>y\<in>set (pre0 @ best # mid). key y < key x"
      using Cons.prems True by auto
    have b: "\<forall>y\<in>set ([]::'a list). key y \<le> key x" by simp
    from Cons.IH [OF a b] True show ?thesis by simp
  next
    case False
    have b: "\<forall>y\<in>set (mid @ [x]). key y \<le> key best"
      using Cons.prems False by auto
    from Cons.IH [OF Cons.prems(1) b] False show ?thesis by simp
  qed
qed

text \<open>
  C2. For a non-empty list of evaluated candidates the selector returns an element of
  the list that no element ranks above in the priority order \<open>token_f1\<close>,
  \<open>exact_match\<close>, \<open>edit_similarity\<close>, \<open>token_precision\<close>, and every element before it
  in rank order ranks strictly below it, so among equals the earliest wins; for the
  empty list it returns the all-zero tuple.
\<close>

theorem best_candidate_first_maximum:
  "determine_best_candidate [] = MetricResult_empty \<and>
   (cands \<noteq> [] \<longrightarrow>
     (\<exists>pre post. cands = pre @ determine_best_candidate cands # post \<and>
        (\<forall>x\<in>set pre. spec_better (determine_best_candidate cands) x) \<and>
        (\<forall>x\<in>set post. \<not> spec_better x (determine_best_candidate cands))))"
proof (cases cands)
  case Nil
  then show ?thesis by (simp add: determine_best_candidate_def)
next
  case (Cons r rs)
  have "\<exists>pre post. [] @ r # [] @ rs = pre @ py_max_key selection_key r rs # post \<and>
      (\<forall>x\<in>set pre. selection_key x < selection_key (py_max_key selection_key r rs)) \<and>
      (\<forall>x\<in>set post. selection_key x \<le> selection_key (py_max_key selection_key r rs))"
    by (rule py_max_key_split) simp_all
  then show ?thesis
    using Cons by (simp add: determine_best_candidate_def spec_better_key not_less)
qed

theorem best_candidate_first_maximum_witness:
  "[\<lparr>exact_match = 0, edit_similarity = 1/2, token_precision = 1, token_recall = 1/2, token_f1 = 2/3\<rparr>,
    \<lparr>exact_match = 0, edit_similarity = 5/6, token_precision = 1, token_recall = 1, token_f1 = 1\<rparr>,
    \<lparr>exact_match = 0, edit_similarity = 5/6, token_precision = 1, token_recall = 1/3, token_f1 = 1\<rparr>] \<noteq> [] \<and>
   determine_best_candidate
     [\<lparr>exact_match = 0, edit_similarity = 1/2, token_precision = 1, token_recall = 1/2, token_f1 = 2/3\<rparr>,
      \<lparr>exact_match = 0, edit_similarity = 5/6, token_precision = 1, token_recall = 1, token_f1 = 1\<rparr>,
      \<lparr>exact_match = 0, edit_similarity = 5/6, token_precision = 1, token_recall = 1/3, token_f1 = 1\<rparr>]
     = \<lparr>exact_match = 0, edit_similarity = 5/6, token_precision = 1, token_recall = 1, token_f1 = 1\<rparr> \<and>
   (\<exists>pre post.
      [\<lparr>exact_match = 0, edit_similarity = 1/2, token_precision = 1, token_recall = 1/2, token_f1 = 2/3\<rparr>,
       \<lparr>exact_match = 0, edit_similarity = 5/6, token_precision = 1, token_recall = 1, token_f1 = 1\<rparr>,
       \<lparr>exact_match = 0, edit_similarity = 5/6, token_precision = 1, token_recall = 1/3, token_f1 = 1\<rparr>]
      = pre @ \<lparr>exact_match = 0, edit_similarity = 5/6, token_precision = 1, token_recall = 1, token_f1 = 1\<rparr> # post \<and>
      (\<forall>x\<in>set pre. spec_better \<lparr>exact_match = 0, edit_similarity = 5/6, token_precision = 1, token_recall = 1, token_f1 = 1\<rparr> x) \<and>
      (\<forall>x\<in>set post. \<not> spec_better x \<lparr>exact_match = 0, edit_similarity = 5/6, token_precision = 1, token_recall = 1, token_f1 = 1\<rparr>))"
proof -
  let ?a = "\<lparr>exact_match = 0, edit_similarity = 1/2, token_precision = 1, token_recall = 1/2, token_f1 = 2/3\<rparr>"
  let ?b = "\<lparr>exact_match = 0, edit_similarity = 5/6, token_precision = 1, token_recall = 1, token_f1 = 1\<rparr>"
  let ?c = "\<lparr>exact_match = 0, edit_similarity = 5/6, token_precision = 1, token_recall = 1/3, token_f1 = 1\<rparr>"
  have v: "determine_best_candidate [?a, ?b, ?c] = ?b"
    by (simp add: determine_best_candidate_def selection_key_def less_prod_def)
  have ne: "[?a, ?b, ?c] \<noteq> []" by simp
  show ?thesis
    using best_candidate_first_maximum [of "[?a, ?b, ?c]"] ne unfolding v by blast
qed

section \<open>Candidate extraction\<close>

lemma valid_dict_item:
  "is_valid_suggestion sugg \<Longrightarrow> dict_item sugg (S ''name'') = Inr (suggestion_name sugg)"
  by (auto simp: is_valid_suggestion_def dict_item_def suggestion_name_def
      split: json.splits option.splits)

lemma extract_loop_eq:
  "extract_loop B xs acc =
     Inr (acc @ map (\<lambda>s. py_str B (suggestion_name s)) (filter is_valid_suggestion xs))"
  by (induction xs arbitrary: acc) (simp_all add: valid_dict_item)

lemma is_valid_suggestion_iff:
  "is_valid_suggestion s \<longleftrightarrow>
     (\<exists>kv v. s = JObj kv \<and> map_of kv (S ''name'') = Some v \<and> v \<noteq> JNull)"
  by (auto simp: is_valid_suggestion_def split: json.splits option.splits)

text \<open>
  C1, as the code has it. With cap 5 the selector looks at the first five entries of
  the list only, in rank order, and returns the names of the valid ones among them
  (objects with a non-null \<open>name\<close>); an invalid entry among the first five is skipped
  but still uses up its position, so at most five candidates come back and no entry
  after the fifth is ever considered.
\<close>

theorem extract_scans_first_five_only:
  "extract_valid_candidates B (JList xs) 5 =
     Inr (map (\<lambda>s. py_str B (suggestion_name s)) (filter is_valid_suggestion (take 5 xs))) \<and>
   length (filter is_valid_suggestion (take 5 xs)) \<le> 5 \<and>
   (is_valid_suggestion s \<longleftrightarrow>
     (\<exists>kv v. s = JObj kv \<and> map_of kv (S ''name'') = Some v \<and> v \<noteq> JNull))"
proof -
  have "length (filter is_valid_suggestion (take 5 xs)) \<le> length (take 5 xs)"
    by (rule length_filter_le)
  then have "length (filter is_valid_suggestion (take 5 xs)) \<le> 5"
    by simp
  then show ?thesis
    using is_valid_suggestion_iff [of s]
    by (simp add: extract_valid_candidates_def extract_loop_eq py_slice_to_def)
qed

text \<open>
  C1 as stated fails: five invalid entries followed by a valid one. Scanning the whole
  list would collect the sixth entry; the code returns no candidate.
\<close>

theorem extract_whole_list_counterexample:
  "extract_valid_candidates ascii_builtins
     (JList [JNull, JNull, JNull, JNull, JNull, JObj [(S ''name'', JStr (S ''a''))]]) 5
     = Inr [] \<and>
   spec_collect_candidates ascii_builtins
     [JNull, JNull, JNull, JNull, JNull, JObj [(S ''name'', JStr (S ''a''))]] 5
     = [S ''a'']"
  by (simp add: extract_valid_candidates_def py_slice_to_def spec_collect_candidates_def
      is_valid_suggestion_def suggestion_name_def py_str_def)

text \<open>
  C10. A suggestion object is valid exactly when it has a \<open>name\<close> whose value is not
  null, whatever that value is (a number, a list, an empty string); a valid one is
  passed to the evaluator as \<open>str\<close> of that value, in the top-1 slot and among the
  top-5 candidates alike.
\<close>

theorem non_null_name_is_valid:
  "(is_valid_suggestion (JObj kv) \<longleftrightarrow>
      (\<exists>v. map_of kv (S ''name'') = Some v \<and> v \<noteq> JNull)) \<and>
   (map_of kv (S ''name'') = Some v \<and> v \<noteq> JNull \<longrightarrow>
      extract_valid_candidates B (JList [JObj kv]) 5 = Inr [py_str B v] \<and>
      top_1_calculation B gt (JList (JObj kv # rest)) = evaluate B gt (py_str B v))"
  by (auto simp: is_valid_suggestion_def extract_valid_candidates_def py_slice_to_def
        top_1_calculation_def dict_item_def split: option.splits)

lemma digits_of_0: "digits_of 0 = [48]"
  by (subst digits_of.simps) simp

theorem non_null_name_is_valid_witness:
  "map_of [(S ''name'', JInt 0)] (S ''name'') = Some (JInt 0) \<and> JInt 0 \<noteq> JNull \<and>
   is_valid_suggestion (JObj [(S ''name'', JInt 0)]) \<and>
   extract_valid_candidates ascii_builtins (JList [JObj [(S ''name'', JInt 0)]]) 5 = Inr [S ''0''] \<and>
   top_1_calculation ascii_builtins (S ''x'') (JList [JObj [(S ''name'', JInt 0)]])
     = evaluate ascii_builtins (S ''x'') (S ''0'') \<and>
   is_valid_suggestion (JObj [(S ''name'', JStr [])]) \<and>
   is_valid_suggestion (JObj [(S ''name'', JBool False)]) \<and>
   is_valid_suggestion (JObj [(S ''name'', JList [])]) \<and>
   \<not> is_valid_suggestion (JObj [(S ''name'', JNull)])"
proof -
  have s: "py_str ascii_builtins (JInt 0) = S ''0''"
    by (simp add: py_str_def str_int_def digits_of_0 S_def)
  have others: "is_valid_suggestion (JObj [(S ''name'', JStr [])])"
    "is_valid_suggestion (JObj [(S ''name'', JBool False)])"
    "is_valid_suggestion (JObj [(S ''name'', JList [])])"
    "\<not> is_valid_suggestion (JObj [(S ''name'', JNull)])"
    by (simp_all add: is_valid_suggestion_def)
  show ?thesis
    using non_null_name_is_valid [of "[(S ''name'', JInt 0)]" "JInt 0" ascii_builtins "S ''x''" "[]"]
      others
    by (simp add: s)
qed

section \<open>Tokenizer\<close>

text \<open>
  The acronym matcher against the pattern it stands for: a match of
  \<open>([A-Z]+)([A-Z][a-z])\<close> at the start of \<open>s\<close> is a non-empty run of capitals, one more
  capital and a small letter. There is at most one such split of the text, so the
  greedy search of the regex engine finds this one or none.
\<close>

lemma lower_not_upper: "is_lower c \<Longrightarrow> \<not> is_upper c"
  by (simp add: is_lower_def is_upper_def)

lemma match_acronym_iff:
  "match_acronym s = Some (g1, g2) \<longleftrightarrow>
     g2 = 2 \<and> 1 \<le> g1 \<and> g1 + 2 \<le> length s \<and> (\<forall>i<g1. is_upper (s ! i)) \<and>
     is_upper (s ! g1) \<and> is_lower (s ! (g1 + 1))"
proof
  assume m: "match_acronym s = Some (g1, g2)"
  let ?k = "length (takeWhile is_upper s)"
  from m have k2: "2 \<le> ?k" and g: "g1 = ?k - 1" "g2 = 2"
    and d: "(case drop ?k s of [] \<Rightarrow> False | c # _ \<Rightarrow> is_lower c)"
    by (auto simp: match_acronym_def Let_def split: if_splits)
  from d obtain c rest where dr: "drop ?k s = c # rest" and lc: "is_lower c"
    by (auto split: list.splits)
  from dr have len: "?k < length s"
    by (metis drop_eq_Nil list.distinct(1) not_le)
  from dr have "s ! ?k = c"
    by (metis Cons_nth_drop_Suc len list.inject)
  moreover have "\<forall>i<?k. is_upper (s ! i)"
    by (metis nth_mem set_takeWhileD takeWhile_nth)
  moreover have "g1 + 1 = ?k" "g1 < ?k"
    using k2 g by linarith+
  ultimately show "g2 = 2 \<and> 1 \<le> g1 \<and> g1 + 2 \<le> length s \<and> (\<forall>i<g1. is_upper (s ! i)) \<and>
     is_upper (s ! g1) \<and> is_lower (s ! (g1 + 1))"
    using k2 g(2) lc len by (simp del: One_nat_def add: g(1))
next
  assume a: "g2 = 2 \<and> 1 \<le> g1 \<and> g1 + 2 \<le> length s \<and> (\<forall>i<g1. is_upper (s ! i)) \<and>
     is_upper (s ! g1) \<and> is_lower (s ! (g1 + 1))"
  have all: "\<forall>i<Suc g1. is_upper (s ! i)"
    using a by (auto simp: less_Suc_eq)
  have stop: "\<not> is_upper (s ! Suc g1)"
    using a by (simp add: lower_not_upper)
  have tw: "takeWhile is_upper s = take (Suc g1) s"
    by (rule takeWhile_eq_take_P_nth) (use all stop in auto)
  have k: "length (takeWhile is_upper s) = Suc g1"
    using a by (simp add: tw)
  have "drop (Suc g1) s = s ! Suc g1 # drop (Suc (Suc g1)) s"
    using a by (simp add: Cons_nth_drop_Suc)
  then show "match_acronym s = Some (g1, g2)"
    using a by (simp add: match_acronym_def k Let_def)
qed

lemma ascii_faithful_word:
  "ascii_faithful B \<Longrightarrow> c < 128 \<Longrightarrow>
   is_word B c = (is_upper c \<or> is_lower c \<or> is_digit c \<or> c = 95)"
  by (simp add: ascii_faithful_def is_word_def)

lemma ascii_faithful_space:
  "ascii_faithful B \<Longrightarrow> c < 128 \<Longrightarrow>
   isspace B c = ((9 \<le> c \<and> c \<le> 13) \<or> (28 \<le> c \<and> c \<le> 32))"
  by (simp add: ascii_faithful_def)

lemma ascii_faithful_lower:
  "ascii_faithful B \<Longrightarrow> list_all (\<lambda>c. c < 128) s \<Longrightarrow>
   lower B s = map (\<lambda>c. if is_upper c then c + 32 else c) s"
  by (simp add: ascii_faithful_def)

lemma ascii_builtins_faithful: "ascii_faithful ascii_builtins"
  by (simp add: ascii_faithful_def ascii_builtins_def)

lemma S_xml: "S ''XMLHttpRequest2'' = [88, 77, 76, 72, 116, 116, 112, 82, 101, 113, 117, 101, 115, 116, 50]"
  by (simp add: S_def)

lemma acronym_step:
  "re_sub_groups match_acronym (S ''XMLHttpRequest2'') = S ''XML HttpRequest2''"
  by (simp add: S_def match_acronym_def is_upper_def is_lower_def)

lemma camel_step:
  "re_sub_groups match_camel (S ''XML HttpRequest2'') = S ''XML Http Request2''"
  by (simp add: S_def match_camel_def is_upper_def is_lower_def is_digit_def)

lemma digit_letter_step:
  "re_sub_groups match_digit_letter (S ''XML Http Request2'') = S ''XML Http Request2''"
  by (simp add: S_def match_digit_letter_def is_upper_def is_lower_def is_digit_def)

lemma letter_digit_step:
  "re_sub_groups match_letter_digit (S ''XML Http Request2'') = S ''XML Http Request 2''"
  by (simp add: S_def match_letter_digit_def is_upper_def is_lower_def is_digit_def)

lemma clean_step:
  assumes "ascii_faithful B"
  shows "map (\<lambda>c. if c = 95 then 32 else c)
           (map (\<lambda>c. if is_word B c then c else 32) (S ''XMLHttpRequest2''))
         = S ''XMLHttpRequest2''"
  by (simp add: S_def ascii_faithful_word [OF assms] is_upper_def is_lower_def is_digit_def)

lemma split_step:
  assumes "ascii_faithful B"
  shows "py_split (isspace B) [] (S ''XML Http Request 2'')
         = [S ''XML'', S ''Http'', S ''Request'', S ''2'']"
  by (simp add: S_def ascii_faithful_space [OF assms])

lemma lower_step:
  assumes "ascii_faithful B"
  shows "map (lower B) [S ''XML'', S ''Http'', S ''Request'', S ''2'']
         = [S ''xml'', S ''http'', S ''request'', S ''2'']"
  by (simp add: S_def ascii_faithful_lower [OF assms] is_upper_def)

text \<open>
  C5. With Python's classification of the ASCII code points, the tokenizer returns the
  empty sequence for the empty string and \<open>xml, http, request, 2\<close> for
  \<open>XMLHttpRequest2\<close>; on the way the acronym rule runs first and gives
  \<open>XML HttpRequest2\<close>, and the camelCase rule then gives \<open>XML Http Request2\<close>.
\<close>

theorem tokenize_test_vectors:
  assumes "ascii_faithful B"
  shows "tokenize B (S '''') = [] \<and>
         tokenize B (S ''XMLHttpRequest2'') = [S ''xml'', S ''http'', S ''request'', S ''2''] \<and>
         re_sub_groups match_acronym (S ''XMLHttpRequest2'') = S ''XML HttpRequest2'' \<and>
         re_sub_groups match_camel (S ''XML HttpRequest2'') = S ''XML Http Request2''"
proof -
  have ne: "S ''XMLHttpRequest2'' \<noteq> []" by (simp add: S_def)
  have "tokenize B (S ''XMLHttpRequest2'') = [S ''xml'', S ''http'', S ''request'', S ''2'']"
    unfolding tokenize_def Let_def
    by (simp only: ne if_False clean_step [OF assms] acronym_step camel_step digit_letter_step
          letter_digit_step split_step [OF assms] lower_step [OF assms])
  moreover have "tokenize B (S '''') = []"
    by (simp add: tokenize_def S_def)
  ultimately show ?thesis
    by (simp only: acronym_step camel_step simp_thms)
qed

theorem tokenize_test_vectors_witness:
  "ascii_faithful ascii_builtins \<and>
   tokenize ascii_builtins (S '''') = [] \<and>
   tokenize ascii_builtins (S ''XMLHttpRequest2'') = [S ''xml'', S ''http'', S ''request'', S ''2'']"
  using tokenize_test_vectors [OF ascii_builtins_faithful] ascii_builtins_faithful by simp

section \<open>Token bags and the evaluator\<close>

lemma counter_get_update:
  "counter_get (AList.update k v m) t = (if t = k then v else counter_get m t)"
  by (simp add: counter_get_def update_conv')

lemma Counter_fold_keys:
  "fst ` set (foldl (\<lambda>m x. AList.update x (counter_get m x + 1) m) m0 xs) = fst ` set m0 \<union> set xs"
  by (induction xs arbitrary: m0) (auto simp: dom_update)

lemma Counter_fold_distinct:
  "distinct (map fst m0) \<Longrightarrow>
   distinct (map fst (foldl (\<lambda>m x. AList.update x (counter_get m x + 1) m) m0 xs))"
  by (induction xs arbitrary: m0) (simp_all add: distinct_update)

lemma Counter_fold_get:
  "counter_get (foldl (\<lambda>m x. AList.update x (counter_get m x + 1) m) m0 xs) t
     = counter_get m0 t + int (count_list xs t)"
  by (induction xs arbitrary: m0) (simp_all add: counter_get_update)

lemma Counter_keys: "fst ` set (Counter xs) = set xs"
  by (simp add: Counter_def Counter_fold_keys)

lemma Counter_distinct: "distinct (map fst (Counter xs))"
  by (simp add: Counter_def Counter_fold_distinct)

lemma counter_get_Nil [simp]: "counter_get [] t = 0"
  by (simp add: counter_get_def)

lemma counter_get_Cons:
  "counter_get ((k, v) # m) t = (if t = k then v else counter_get m t)"
  by (simp add: counter_get_def)

lemma Counter_get: "counter_get (Counter xs) t = int (count_list xs t)"
  unfolding Counter_def by (simp add: Counter_fold_get)

lemma alist_by_keys:
  "distinct (map fst m) \<Longrightarrow> map (\<lambda>k. (k, counter_get m k)) (map fst m) = m"
proof (induction m)
  case Nil
  show ?case by simp
next
  case (Cons kv m)
  obtain k v where kv: "kv = (k, v)" by (cases kv)
  have notin: "k \<notin> set (map fst m)" and d: "distinct (map fst m)"
    using Cons.prems kv by auto
  have "map (\<lambda>k'. (k', counter_get ((k, v) # m) k')) (map fst m)
        = map (\<lambda>k'. (k', counter_get m k')) (map fst m)"
  proof (rule map_cong [OF refl])
    fix k' assume "k' \<in> set (map fst m)"
    then have "k' \<noteq> k" using notin by blast
    then show "(k', counter_get ((k, v) # m) k') = (k', counter_get m k')"
      by (simp add: counter_get_Cons)
  qed
  also have "\<dots> = m" by (rule Cons.IH [OF d])
  finally have "map (\<lambda>k'. (k', counter_get ((k, v) # m) k')) (map fst m) = m" .
  then show ?case unfolding kv by (simp add: counter_get_Cons)
qed

lemma Counter_by_keys:
  "Counter xs = map (\<lambda>k. (k, int (count_list xs k))) (map fst (Counter xs))"
  using alist_by_keys [OF Counter_distinct, of xs] by (simp add: Counter_get)

lemma sum_list_over_keys:
  "sum_list (map h (map fst (Counter xs))) = (\<Sum>k\<in>set xs. h k)"
proof -
  have "sum_list (map h (map fst (Counter xs))) = sum h (set (map fst (Counter xs)))"
    by (rule sum_list_distinct_conv_sum_set) (rule Counter_distinct)
  then show ?thesis using Counter_keys [of xs] by simp
qed

lemma counter_values_sum_Counter: "counter_values_sum (Counter xs) = int (spec_bag_size xs)"
proof -
  have "counter_values_sum (Counter xs)
        = sum_list (map snd (map (\<lambda>k. (k, int (count_list xs k))) (map fst (Counter xs))))"
    unfolding counter_values_sum_def using Counter_by_keys [of xs] by simp
  also have "\<dots> = sum_list (map (\<lambda>k. int (count_list xs k)) (map fst (Counter xs)))"
    by (simp add: comp_def)
  also have "\<dots> = (\<Sum>k\<in>set xs. int (count_list xs k))"
    by (rule sum_list_over_keys)
  finally show ?thesis by (simp add: spec_bag_size_def)
qed

lemma sum_list_filter_positive:
  "(\<And>x. x \<in> set ys \<Longrightarrow> (0::int) \<le> snd x) \<Longrightarrow>
   sum_list (map snd (filter (\<lambda>(elem, newcount). 0 < newcount) ys)) = sum_list (map snd ys)"
proof (induction ys)
  case Nil
  show ?case by simp
next
  case (Cons y ys)
  have "0 \<le> snd y" using Cons.prems by simp
  moreover have "sum_list (map snd (filter (\<lambda>(elem, newcount). 0 < newcount) ys)) = sum_list (map snd ys)"
    using Cons by simp
  ultimately show ?case by (cases y) auto
qed

lemma spec_bag_common_left:
  "spec_bag_common g p = (\<Sum>t\<in>set g. min (count_list g t) (count_list p t))"
proof -
  have "(\<Sum>t\<in>set g \<union> set p. min (count_list g t) (count_list p t))
        = (\<Sum>t\<in>set g. min (count_list g t) (count_list p t))"
    by (rule sum.mono_neutral_right) (auto simp: count_list_0_iff)
  then show ?thesis by (simp add: spec_bag_common_def)
qed

lemma counter_and_total:
  "counter_values_sum (counter_and (Counter g) (Counter p)) = int (spec_bag_common g p)"
proof -
  let ?K = "map fst (Counter g)"
  let ?h = "\<lambda>k. min (int (count_list g k)) (int (count_list p k))"
  have m: "map (\<lambda>(elem, count). (elem, min count (counter_get (Counter p) elem))) (Counter g)
           = map (\<lambda>k. (k, ?h k)) ?K"
    by (subst Counter_by_keys [of g]) (simp add: comp_def Counter_get)
  have "counter_values_sum (counter_and (Counter g) (Counter p))
        = sum_list (map snd (map (\<lambda>k. (k, ?h k)) ?K))"
    unfolding counter_values_sum_def counter_and_def m
    by (rule sum_list_filter_positive) auto
  also have "\<dots> = sum_list (map ?h ?K)"
    by (simp add: comp_def)
  also have "\<dots> = (\<Sum>k\<in>set g. ?h k)"
    by (rule sum_list_over_keys)
  also have "\<dots> = int (\<Sum>k\<in>set g. min (count_list g k) (count_list p k))"
    by (simp add: of_nat_min)
  finally show ?thesis by (simp add: spec_bag_common_left)
qed

lemma py_truediv_nonzero: "b \<noteq> 0 \<Longrightarrow> py_truediv a b = Inr (a / b)"
  by (simp add: py_truediv_def)

lemma calculate_similarity_eq: "calculate_similarity a b = Inr (spec_similarity a b)"
proof (cases "a = b")
  case True
  then show ?thesis by (simp add: calculate_similarity_def spec_similarity_def)
next
  case False
  then have "a \<noteq> [] \<or> b \<noteq> []" by auto
  then have pos: "max (length a) (length b) \<noteq> 0" by auto
  then have "real (max (length a) (length b)) \<noteq> 0" by simp
  then show ?thesis
    using False pos
    by (simp add: calculate_similarity_def spec_similarity_def Let_def
          calculate_levenshtein_distance_eq py_truediv_nonzero del: of_nat_max)
qed

lemma evaluator_totals:
  "intersection_total (new_evaluator B gt pred)
     = int (spec_bag_common (tokenize B gt) (tokenize B pred))"
  "pred_total (new_evaluator B gt pred) = int (spec_bag_size (tokenize B pred))"
  "gt_total (new_evaluator B gt pred) = int (spec_bag_size (tokenize B gt))"
  "ground_truth (new_evaluator B gt pred) = gt"
  "prediction (new_evaluator B gt pred) = pred"
  by (simp_all add: new_evaluator_def Let_def counter_and_total counter_values_sum_Counter)

lemma token_precision_eq:
  "calculate_token_precision (new_evaluator B gt pred)
     = Inr (spec_token_precision (tokenize B gt) (tokenize B pred))"
  by (simp add: calculate_token_precision_def evaluator_totals spec_token_precision_def
        py_truediv_nonzero)

lemma token_recall_eq:
  "calculate_token_recall (new_evaluator B gt pred)
     = Inr (spec_token_recall (tokenize B gt) (tokenize B pred))"
  by (simp add: calculate_token_recall_def evaluator_totals spec_token_recall_def
        py_truediv_nonzero)

lemma token_f1_eq:
  "calculate_token_f1 (new_evaluator B gt pred)
     = Inr (spec_token_f1 (tokenize B gt) (tokenize B pred))"
  by (simp add: calculate_token_f1_def token_precision_eq token_recall_eq evaluator_totals
        spec_token_f1_def Let_def py_truediv_nonzero mult.assoc)

lemma evaluate_eq:
  "evaluate B gt pred =
     Inr \<lparr> exact_match = (if gt = pred then 1 else 0),
           edit_similarity = spec_similarity gt pred,
           token_precision = spec_token_precision (tokenize B gt) (tokenize B pred),
           token_recall = spec_token_recall (tokenize B gt) (tokenize B pred),
           token_f1 = spec_token_f1 (tokenize B gt) (tokenize B pred) \<rparr>"
  by (simp add: evaluate_def evaluate_metrics_def calculate_edit_similarity_def
        calculate_similarity_eq token_precision_eq token_recall_eq token_f1_eq
        calculate_exact_match_def evaluator_totals)

text \<open>
  C3. For all strings the evaluator returns a tuple (it never raises). The totals it
  computes from the two counters are \<open>I\<close>, \<open>|P|\<close> and \<open>|G|\<close> of the token bags, and the
  token fields are the reference values: precision \<open>I/|P|\<close> when \<open>|P| > 0\<close> and 0
  otherwise, recall \<open>I/|G|\<close> when \<open>|G| > 0\<close> and 0 otherwise, F1 equal to 1 when both
  bags are empty, else 0 when precision plus recall is 0, else \<open>2pr/(p+r)\<close>.
\<close>

theorem evaluator_token_fields:
  "intersection_total (new_evaluator B gt pred)
     = int (spec_bag_common (tokenize B gt) (tokenize B pred)) \<and>
   pred_total (new_evaluator B gt pred) = int (spec_bag_size (tokenize B pred)) \<and>
   gt_total (new_evaluator B gt pred) = int (spec_bag_size (tokenize B gt)) \<and>
   (\<exists>m. evaluate B gt pred = Inr m \<and>
      token_precision m = spec_token_precision (tokenize B gt) (tokenize B pred) \<and>
      token_recall m = spec_token_recall (tokenize B gt) (tokenize B pred) \<and>
      token_f1 m = spec_token_f1 (tokenize B gt) (tokenize B pred))"
  by (simp add: evaluator_totals evaluate_eq)

section \<open>Every metric lies between 0 and 1\<close>

lemma levenshtein_spec_le_max:
  "levenshtein_spec xs ys \<le> max (length xs) (length ys)"
proof (induction xs ys rule: levenshtein_spec.induct)
  case (3 x xs y ys)
  have "levenshtein_spec (x # xs) (y # ys) \<le> levenshtein_spec xs ys + (if x = y then 0 else 1)"
    by simp
  also have "\<dots> \<le> max (length xs) (length ys) + 1"
    using 3(3) by simp
  finally show ?case by simp
qed simp_all

lemma spec_similarity_bounds: "0 \<le> spec_similarity a b \<and> spec_similarity a b \<le> 1"
proof (cases "a = b")
  case True
  then show ?thesis by (simp add: spec_similarity_def)
next
  case False
  let ?d = "real (levenshtein_spec a b)"
  let ?m = "real (max (length a) (length b))"
  have "a \<noteq> [] \<or> b \<noteq> []" using False by auto
  then have "0 < length a \<or> 0 < length b" by simp
  then have "0 < max (length a) (length b)" by (simp add: less_max_iff_disj)
  then have m: "0 < ?m" by (simp del: of_nat_max)
  have d: "?d \<le> ?m" using levenshtein_spec_le_max [of a b] by (simp del: of_nat_max)
  have "0 \<le> ?d / ?m" by simp
  moreover have "?d / ?m \<le> 1" using m d by (simp add: divide_le_eq_1 del: of_nat_max)
  ultimately show ?thesis using False by (simp add: spec_similarity_def del: of_nat_max)
qed

lemma spec_bag_size_length: "spec_bag_size ts = length ts"
  unfolding spec_bag_size_def by (rule sum_count_set) simp_all

lemma spec_bag_common_le_left: "spec_bag_common g p \<le> spec_bag_size g"
  unfolding spec_bag_common_left spec_bag_size_def by (rule sum_mono) simp

lemma spec_bag_common_le_right: "spec_bag_common g p \<le> spec_bag_size p"
proof -
  have "spec_bag_common g p \<le> (\<Sum>t\<in>set g \<union> set p. count_list p t)"
    unfolding spec_bag_common_def by (rule sum_mono) simp
  also have "\<dots> = (\<Sum>t\<in>set p. count_list p t)"
    by (rule sum.mono_neutral_right) (auto simp: count_list_0_iff)
  finally show ?thesis by (simp add: spec_bag_size_def)
qed

lemma spec_token_precision_bounds:
  "0 \<le> spec_token_precision g p \<and> spec_token_precision g p \<le> 1"
  using spec_bag_common_le_right [of g p]
  by (simp add: spec_token_precision_def divide_le_eq_1)

lemma spec_token_recall_bounds:
  "0 \<le> spec_token_recall g p \<and> spec_token_recall g p \<le> 1"
  using spec_bag_common_le_left [of g p]
  by (simp add: spec_token_recall_def divide_le_eq_1)

lemma harmonic_bounds:
  fixes p r :: real
  assumes "0 \<le> p" "p \<le> 1" "0 \<le> r" "r \<le> 1" "p + r \<noteq> 0"
  shows "0 \<le> 2 * p * r / (p + r) \<and> 2 * p * r / (p + r) \<le> 1"
proof -
  have pos: "0 < p + r" using assms by linarith
  have "p * r \<le> p * 1" using assms by (intro mult_left_mono) simp_all
  moreover have "p * r \<le> 1 * r" using assms by (intro mult_right_mono) simp_all
  ultimately have "2 * p * r \<le> p + r" by simp
  then have "2 * p * r / (p + r) \<le> 1" using pos by (simp add: divide_le_eq_1)
  moreover have "0 \<le> 2 * p * r / (p + r)" using assms pos by simp
  ultimately show ?thesis by simp
qed

lemma spec_token_f1_bounds: "0 \<le> spec_token_f1 g p \<and> spec_token_f1 g p \<le> 1"
  using spec_token_precision_bounds [of g p] spec_token_recall_bounds [of g p]
    harmonic_bounds [of "spec_token_precision g p" "spec_token_recall g p"]
  by (simp add: spec_token_f1_def Let_def)

text \<open>
  C6. For all strings the evaluator returns a tuple whose \<open>exact_match\<close> is 0 or 1 and
  whose \<open>edit_similarity\<close> (the value of \<open>calculate_similarity\<close>), \<open>token_precision\<close>,
  \<open>token_recall\<close> and \<open>token_f1\<close> all lie between 0 and 1.
\<close>

theorem metric_fields_in_unit_interval:
  "\<exists>m. evaluate B gt pred = Inr m \<and>
      (exact_match m = 0 \<or> exact_match m = 1) \<and>
      0 \<le> edit_similarity m \<and> edit_similarity m \<le> 1 \<and>
      0 \<le> token_precision m \<and> token_precision m \<le> 1 \<and>
      0 \<le> token_recall m \<and> token_recall m \<le> 1 \<and>
      0 \<le> token_f1 m \<and> token_f1 m \<le> 1 \<and>
      calculate_similarity gt pred = Inr (edit_similarity m)"
  using spec_similarity_bounds [of gt pred]
    spec_token_precision_bounds [of "tokenize B gt" "tokenize B pred"]
    spec_token_recall_bounds [of "tokenize B gt" "tokenize B pred"]
    spec_token_f1_bounds [of "tokenize B gt" "tokenize B pred"]
  by (simp add: evaluate_eq calculate_similarity_eq)

section \<open>Aggregation\<close>

lemma get_avg_dict_Suc:
  "get_avg_dict (Suc k) acc =
     Inr (JObj [(S ''exact_match'', JFloat (real_of_int (exact_match acc) / real (Suc k))),
                (S ''edit_similarity'', JFloat (edit_similarity acc / real (Suc k))),
                (S ''token_precision'', JFloat (token_precision acc / real (Suc k))),
                (S ''token_recall'', JFloat (token_recall acc / real (Suc k))),
                (S ''token_f1'', JFloat (token_f1 acc / real (Suc k)))])"
  unfolding get_avg_dict_def by (simp add: py_truediv_nonzero del: of_nat_Suc)

lemma calculate_final_averages_cases:
  "calculate_final_averages 0 acc =
     Inr (JObj [(S ''top_1_performance_metrics'',
                  JObj [(S ''exact_match'', JInt 0), (S ''edit_similarity'', JFloat 0),
                        (S ''token_precision'', JFloat 0), (S ''token_recall'', JFloat 0),
                        (S ''token_f1'', JFloat 0)]),
                (S ''top_5_performance_metrics'',
                  JObj [(S ''exact_match'', JInt 0), (S ''edit_similarity'', JFloat 0),
                        (S ''token_precision'', JFloat 0), (S ''token_recall'', JFloat 0),
                        (S ''token_f1'', JFloat 0)])]) \<and>
   calculate_final_averages (Suc k) acc =
     Inr (JObj [(S ''top_1_performance_metrics'',
                  JObj [(S ''exact_match'', JFloat (real_of_int (exact_match (top_1 acc)) / real (Suc k))),
                        (S ''edit_similarity'', JFloat (edit_similarity (top_1 acc) / real (Suc k))),
                        (S ''token_precision'', JFloat (token_precision (top_1 acc) / real (Suc k))),
                        (S ''token_recall'', JFloat (token_recall (top_1 acc) / real (Suc k))),
                        (S ''token_f1'', JFloat (token_f1 (top_1 acc) / real (Suc k)))]),
                (S ''top_5_performance_metrics'',
                  JObj [(S ''exact_match'', JFloat (real_of_int (exact_match (top_5 acc)) / real (Suc k))),
                        (S ''edit_similarity'', JFloat (edit_similarity (top_5 acc) / real (Suc k))),
                        (S ''token_precision'', JFloat (token_precision (top_5 acc) / real (Suc k))),
                        (S ''token_recall'', JFloat (token_recall (top_5 acc) / real (Suc k))),
                        (S ''token_f1'', JFloat (token_f1 (top_5 acc) / real (Suc k)))])])"
  unfolding calculate_final_averages_def
  by (simp add: get_avg_dict_Suc metric_dict_def init_zero_metrics_def Let_def del: of_nat_Suc)

section \<open>The run as a whole\<close>

lemma top_1_calculation_total: "\<exists>m. top_1_calculation B gt raw = Inr m"
  by (auto simp: top_1_calculation_def valid_dict_item evaluate_eq split: json.splits list.splits)

lemma extract_valid_candidates_total: "\<exists>names. extract_valid_candidates B raw limit = Inr names"
  by (auto simp: extract_valid_candidates_def extract_loop_eq split: json.splits)

lemma evaluate_all_total: "\<exists>ms. evaluate_all B gt preds = Inr ms"
  by (induction preds) (auto simp: evaluate_eq)

lemma process_item_total: "\<exists>r. process_item B (JObj kv) acc = Inr r"
proof -
  let ?gt = "if (case map_of kv (S ''new_name'') of None \<Rightarrow> JNull | Some v \<Rightarrow> v) \<noteq> JNull
             then py_str B (case map_of kv (S ''new_name'') of None \<Rightarrow> JNull | Some v \<Rightarrow> v) else []"
  let ?raw = "case map_of kv (S ''suggestions'') of None \<Rightarrow> JList [] | Some v \<Rightarrow> v"
  obtain m1 where m1: "top_1_calculation B ?gt ?raw = Inr m1"
    using top_1_calculation_total by blast
  obtain names where names: "extract_valid_candidates B ?raw 5 = Inr names"
    using extract_valid_candidates_total by blast
  obtain ms where ms: "evaluate_all B ?gt names = Inr ms"
    using evaluate_all_total by blast
  show ?thesis
    unfolding process_item_def dict_get_def dict_set_def Let_def
    by (simp add: m1 names ms)
qed

lemma process_loop_total: "\<exists>r. process_loop B (map JObj kvs) acc = Inr r"
proof (induction kvs arbitrary: acc)
  case Nil
  show ?case by simp
next
  case (Cons kv kvs)
  obtain item' acc' where a: "process_item B (JObj kv) acc = Inr (item', acc')"
    using process_item_total [of B kv acc] by fastforce
  obtain rest' acc'' where b: "process_loop B (map JObj kvs) acc' = Inr (rest', acc'')"
    using Cons.IH [of acc'] by fastforce
  show ?case by (simp add: a b)
qed

lemma calculate_final_averages_total: "\<exists>aggs. calculate_final_averages n acc = Inr aggs"
  by (cases n) (simp_all add: calculate_final_averages_def get_avg_dict_def py_truediv_def Let_def)

lemma malformed_suggestions_never_abort:
  "\<exists>r. run_document B (JObj ((S ''results'', JList (map JObj kvs)) # other)) = Inr r"
proof -
  obtain items' acc where a:
    "process_loop B (map JObj kvs) \<lparr> top_1 = init_zero_metrics, top_5 = init_zero_metrics \<rparr>
       = Inr (items', acc)"
    using process_loop_total [of B kvs] by fastforce
  obtain aggs where b: "calculate_final_averages (length kvs) acc = Inr aggs"
    using calculate_final_averages_total by blast
  show ?thesis
    by (simp add: run_document_def contains_results_def new_processor_def dict_get_def
          py_len_def process_def py_iter_def a b)
qed

lemma S_distinct_keys:
  "S ''results'' \<noteq> S ''aggregate_performance_metrics''"
  by (simp add: S_def)

text \<open>
  C8, what the code does. Only a missing file ends the run with exit code 1. A file
  that fails to decode (as JSON, or already as UTF-8), a file that cannot be read and
  a document without \<open>results\<close> are reported and nothing is written, but the exit
  code is 0.
\<close>

theorem main_exit_code:
  "exit_code (main B inp) = (if inp = Missing then 1 else 0) \<and>
   main B Corrupt = \<lparr> exit_code = 0, reports = [FailedToDecode], written = None \<rparr> \<and>
   main B (Document (JObj [])) =
     \<lparr> exit_code = 0, reports = [UnexpectedError ValueError], written = None \<rparr> \<and>
   main B Undecodable =
     \<lparr> exit_code = 0, reports = [UnexpectedError UnicodeDecodeError], written = None \<rparr> \<and>
   main B Unreadable =
     \<lparr> exit_code = 0, reports = [UnexpectedError OSError], written = None \<rparr>"
  by (simp add: main_def run_document_def contains_results_def
        split: file_input.splits sum.splits)

lemma main_writes_aggregates_only:
  "(\<forall>doc. written (main B inp) = Some doc \<longrightarrow>
      (\<exists>aggs. doc = JObj [(S ''aggregate_performance_metrics'', aggs)]) \<and>
      dict_item doc (S ''results'') = Inl KeyError)"
  by (auto simp: main_def run_document_def process_def dict_item_def S_distinct_keys
        split: file_input.splits sum.splits if_splits prod.splits
        simp: then_do_def)

lemma S_neq1: "S ''new_name'' \<noteq> S ''suggestions''" "S ''new_name'' \<noteq> S ''performance_metrics''"
  "S ''suggestions'' \<noteq> S ''performance_metrics''" "S ''suggestions'' \<noteq> S ''new_name''"
  by (simp_all add: S_def)

lemma run_document_one_record:
  "run_document B (JObj [(S ''results'', JList [JObj [(S ''new_name'', JStr (S ''a''))]])]) =
     Inr \<lparr> final_output =
             JObj [(S ''aggregate_performance_metrics'',
               JObj [(S ''top_1_performance_metrics'',
                       JObj [(S ''exact_match'', JFloat 0), (S ''edit_similarity'', JFloat 0),
                             (S ''token_precision'', JFloat 0), (S ''token_recall'', JFloat 0),
                             (S ''token_f1'', JFloat 0)]),
                     (S ''top_5_performance_metrics'',
                       JObj [(S ''exact_match'', JFloat 0), (S ''edit_similarity'', JFloat 0),
                             (S ''token_precision'', JFloat 0), (S ''token_recall'', JFloat 0),
                             (S ''token_f1'', JFloat 0)])])],
           aggregates =
               JObj [(S ''top_1_performance_metrics'',
                       JObj [(S ''exact_match'', JFloat 0), (S ''edit_similarity'', JFloat 0),
                             (S ''token_precision'', JFloat 0), (S ''token_recall'', JFloat 0),
                             (S ''token_f1'', JFloat 0)]),
                     (S ''top_5_performance_metrics'',
                       JObj [(S ''exact_match'', JFloat 0), (S ''edit_similarity'', JFloat 0),
                             (S ''token_precision'', JFloat 0), (S ''token_recall'', JFloat 0),
                             (S ''token_f1'', JFloat 0)])],
           annotated =
             [JObj [(S ''new_name'', JStr (S ''a'')),
                    (S ''performance_metrics'',
                      JObj [(S ''top_1_performance_metrics'',
                              JObj [(S ''exact_match'', JInt 0), (S ''edit_similarity'', JFloat 0),
                                    (S ''token_precision'', JFloat 0), (S ''token_recall'', JFloat 0),
                                    (S ''token_f1'', JFloat 0)]),
                            (S ''top_5_performance_metrics'',
                              JObj [(S ''exact_match'', JInt 0), (S ''edit_similarity'', JFloat 0),
                                    (S ''token_precision'', JFloat 0), (S ''token_recall'', JFloat 0),
                                    (S ''token_f1'', JFloat 0)])])]] \<rparr>"
  by (simp add: run_document_def contains_results_def new_processor_def dict_get_def py_len_def
        process_def py_iter_def process_item_def top_1_calculation_def
        extract_valid_candidates_def determine_best_candidate_def dict_set_def
        metric_dict_def MetricResult_empty_def init_zero_metrics_def update_accumulator_def
        calculate_final_averages_def get_avg_dict_def py_truediv_def S_neq1 Let_def
        py_slice_to_def py_str_def)

text \<open>
  C7, what the code does. For the document \<open>{"results": [{"new_name": "a"}]}\<close> the
  file written holds the single key \<open>aggregate_performance_metrics\<close>: the record
  list, which the loop has annotated in memory, is not in the output.
\<close>

theorem output_drops_record_list:
  "written (main B (Document
      (JObj [(S ''results'', JList [JObj [(S ''new_name'', JStr (S ''a''))]])])))
     = Some (JObj [(S ''aggregate_performance_metrics'',
               JObj [(S ''top_1_performance_metrics'',
                       JObj [(S ''exact_match'', JFloat 0), (S ''edit_similarity'', JFloat 0),
                             (S ''token_precision'', JFloat 0), (S ''token_recall'', JFloat 0),
                             (S ''token_f1'', JFloat 0)]),
                     (S ''top_5_performance_metrics'',
                       JObj [(S ''exact_match'', JFloat 0), (S ''edit_similarity'', JFloat 0),
                             (S ''token_precision'', JFloat 0), (S ''token_recall'', JFloat 0),
                             (S ''token_f1'', JFloat 0)])])]) \<and>
   (case written (main B (Document
      (JObj [(S ''results'', JList [JObj [(S ''new_name'', JStr (S ''a''))]])]))) of
      Some out \<Rightarrow> dict_item out (S ''results'')
    | None \<Rightarrow> Inr JNull) = Inl KeyError"
  by (simp add: main_def run_document_one_record dict_item_def S_distinct_keys)

section \<open>Averages over the record list\<close>

lemma update_accumulator_field_sums:
  "foldl update_accumulator a ms = update_accumulator a (field_sums ms)"
proof (induction ms arbitrary: a)
  case Nil
  show ?case by (simp add: update_accumulator_def field_sums_def)
next
  case (Cons m ms)
  show ?case
    unfolding foldl_Cons Cons.IH
    by (simp add: update_accumulator_def field_sums_def algebra_simps)
qed

lemma field_sums_from_zero:
  "foldl update_accumulator init_zero_metrics ms = field_sums ms"
  unfolding update_accumulator_field_sums
  by (simp add: update_accumulator_def init_zero_metrics_def field_sums_def)

lemma process_item_metrics:
  "\<exists>item'. process_item B (JObj kv) acc =
     Inr (item', \<lparr> top_1 = update_accumulator (top_1 acc) (record_top_1 B kv),
                   top_5 = update_accumulator (top_5 acc) (record_top_5 B kv) \<rparr>)"
proof -
  let ?gt = "record_ground_truth B kv"
  let ?raw = "record_suggestions kv"
  have gt: "(if (case map_of kv (S ''new_name'') of None \<Rightarrow> JNull | Some v \<Rightarrow> v) \<noteq> JNull
             then py_str B (case map_of kv (S ''new_name'') of None \<Rightarrow> JNull | Some v \<Rightarrow> v)
             else []) = ?gt"
    by (simp add: record_ground_truth_def split: option.splits)
  obtain m1 where m1: "top_1_calculation B ?gt ?raw = Inr m1"
    using top_1_calculation_total by blast
  obtain names where names: "extract_valid_candidates B ?raw 5 = Inr names"
    using extract_valid_candidates_total by blast
  obtain ms where ms: "evaluate_all B ?gt names = Inr ms"
    using evaluate_all_total by blast
  have r1: "record_top_1 B kv = m1"
    by (simp add: record_top_1_def m1)
  have r5: "record_top_5 B kv = determine_best_candidate ms"
    by (simp add: record_top_5_def names ms)
  show ?thesis
    unfolding process_item_def dict_get_def dict_set_def Let_def
    by (simp add: gt record_suggestions_def [symmetric] m1 names ms r1 r5)
qed

lemma process_loop_metrics:
  "\<exists>items'. process_loop B (map JObj kvs) acc =
     Inr (items', \<lparr> top_1 = foldl update_accumulator (top_1 acc) (map (record_top_1 B) kvs),
                    top_5 = foldl update_accumulator (top_5 acc) (map (record_top_5 B) kvs) \<rparr>)"
proof (induction kvs arbitrary: acc)
  case Nil
  show ?case by simp
next
  case (Cons kv kvs)
  let ?acc' = "\<lparr> top_1 = update_accumulator (top_1 acc) (record_top_1 B kv),
                 top_5 = update_accumulator (top_5 acc) (record_top_5 B kv) \<rparr>"
  obtain item' where a: "process_item B (JObj kv) acc = Inr (item', ?acc')"
    using process_item_metrics [of B kv acc] by blast
  obtain rest' where b: "process_loop B (map JObj kvs) ?acc' =
     Inr (rest', \<lparr> top_1 = foldl update_accumulator (top_1 ?acc') (map (record_top_1 B) kvs),
                   top_5 = foldl update_accumulator (top_5 ?acc') (map (record_top_5 B) kvs) \<rparr>)"
    using Cons.IH [of ?acc'] by blast
  show ?case by (simp add: a b)
qed

lemma process_loop_from_zero:
  "\<exists>items'. process_loop B (map JObj kvs)
                \<lparr> top_1 = init_zero_metrics, top_5 = init_zero_metrics \<rparr> =
     Inr (items', \<lparr> top_1 = field_sums (map (record_top_1 B) kvs),
                    top_5 = field_sums (map (record_top_5 B) kvs) \<rparr>)"
  using process_loop_metrics [of B kvs "\<lparr> top_1 = init_zero_metrics, top_5 = init_zero_metrics \<rparr>"]
  by (simp add: field_sums_from_zero)

lemma calculate_final_averages_spec:
  "calculate_final_averages n acc =
     Inr (if n = 0
          then JObj [(S ''top_1_performance_metrics'', spec_zero_dict),
                     (S ''top_5_performance_metrics'', spec_zero_dict)]
          else JObj [(S ''top_1_performance_metrics'', spec_average_dict n (top_1 acc)),
                     (S ''top_5_performance_metrics'', spec_average_dict n (top_5 acc))])"
proof (cases n)
  case 0
  then show ?thesis
    using calculate_final_averages_cases [of acc] by (simp add: spec_zero_dict_def)
next
  case (Suc k)
  then show ?thesis
    using calculate_final_averages_cases [of acc k]
    by (simp add: spec_average_dict_def del: of_nat_Suc)
qed

text \<open>
  C9. For every document whose \<open>results\<close> is a list of records (JSON objects), the run
  returns, and its aggregate holds for both tiers: the all-zero dict when the list is
  empty, with nothing divided; otherwise every field of the field-wise sum of the
  records' metric tuples divided by the number of records.
\<close>

theorem averages_divide_by_record_count:
  assumes "map_of doc (S ''results'') = Some (JList (map JObj kvs))"
  shows "\<exists>r. run_document B (JObj doc) = Inr r \<and>
           final_output r = JObj [(S ''aggregate_performance_metrics'', aggregates r)] \<and>
           aggregates r =
             (if kvs = []
              then JObj [(S ''top_1_performance_metrics'', spec_zero_dict),
                         (S ''top_5_performance_metrics'', spec_zero_dict)]
              else JObj [(S ''top_1_performance_metrics'',
                           spec_average_dict (length kvs) (field_sums (map (record_top_1 B) kvs))),
                         (S ''top_5_performance_metrics'',
                           spec_average_dict (length kvs) (field_sums (map (record_top_5 B) kvs)))])"
proof -
  have "(S ''results'', JList (map JObj kvs)) \<in> set doc"
    using assms by (rule map_of_SomeD)
  then have key: "S ''results'' \<in> fst ` set doc"
    by force
  obtain items' where loop:
    "process_loop B (map JObj kvs) \<lparr> top_1 = init_zero_metrics, top_5 = init_zero_metrics \<rparr> =
       Inr (items', \<lparr> top_1 = field_sums (map (record_top_1 B) kvs),
                      top_5 = field_sums (map (record_top_5 B) kvs) \<rparr>)"
    using process_loop_from_zero [of B kvs] by blast
  show ?thesis
    using key
    by (simp add: run_document_def contains_results_def new_processor_def dict_get_def assms
          py_len_def process_def py_iter_def loop calculate_final_averages_spec)
qed

lemma tokenize_a: "tokenize ascii_builtins (S ''a'') = [S ''a'']"
  by (simp add: tokenize_def S_def ascii_builtins_def is_word_def is_upper_def is_lower_def
        is_digit_def match_acronym_def match_camel_def match_digit_letter_def
        match_letter_digit_def)

lemma evaluate_a_a:
  "evaluate ascii_builtins (S ''a'') (S ''a'') =
     Inr \<lparr> exact_match = 1, edit_similarity = 1, token_precision = 1,
           token_recall = 1, token_f1 = 1 \<rparr>"
  by (simp add: evaluate_eq tokenize_a spec_similarity_def spec_token_precision_def
        spec_token_recall_def spec_token_f1_def spec_bag_size_def spec_bag_common_def)

lemma record_metrics_with_suggestion:
  "record_top_1 ascii_builtins
     [(S ''new_name'', JStr (S ''a'')), (S ''suggestions'', JList [JObj [(S ''name'', JStr (S ''a''))]])]
     = \<lparr> exact_match = 1, edit_similarity = 1, token_precision = 1,
         token_recall = 1, token_f1 = 1 \<rparr>"
  "record_top_5 ascii_builtins
     [(S ''new_name'', JStr (S ''a'')), (S ''suggestions'', JList [JObj [(S ''name'', JStr (S ''a''))]])]
     = \<lparr> exact_match = 1, edit_similarity = 1, token_precision = 1,
         token_recall = 1, token_f1 = 1 \<rparr>"
  by (simp_all add: record_top_1_def record_top_5_def record_ground_truth_def
        record_suggestions_def S_neq1 top_1_calculation_def is_valid_suggestion_def
        dict_item_def py_str_def extract_valid_candidates_def py_slice_to_def
        evaluate_a_a determine_best_candidate_def)

lemma record_metrics_without_suggestion:
  "record_top_1 ascii_builtins [(S ''new_name'', JStr (S ''a''))] = MetricResult_empty"
  "record_top_5 ascii_builtins [(S ''new_name'', JStr (S ''a''))] = MetricResult_empty"
  by (simp_all add: record_top_1_def record_top_5_def record_ground_truth_def
        record_suggestions_def S_neq1 top_1_calculation_def
        extract_valid_candidates_def py_slice_to_def determine_best_candidate_def)

theorem averages_divide_by_record_count_witness:
  "map_of [(S ''results'', JList (map JObj
      [[(S ''new_name'', JStr (S ''a'')),
        (S ''suggestions'', JList [JObj [(S ''name'', JStr (S ''a''))]])],
       [(S ''new_name'', JStr (S ''a''))]]))] (S ''results'')
     = Some (JList (map JObj
      [[(S ''new_name'', JStr (S ''a'')),
        (S ''suggestions'', JList [JObj [(S ''name'', JStr (S ''a''))]])],
       [(S ''new_name'', JStr (S ''a''))]])) \<and>
   (\<exists>r. run_document ascii_builtins (JObj [(S ''results'', JList (map JObj
      [[(S ''new_name'', JStr (S ''a'')),
        (S ''suggestions'', JList [JObj [(S ''name'', JStr (S ''a''))]])],
       [(S ''new_name'', JStr (S ''a''))]]))]) = Inr r \<and>
      aggregates r =
        JObj [(S ''top_1_performance_metrics'',
                JObj [(S ''exact_match'', JFloat (1 / 2)), (S ''edit_similarity'', JFloat (1 / 2)),
                      (S ''token_precision'', JFloat (1 / 2)), (S ''token_recall'', JFloat (1 / 2)),
                      (S ''token_f1'', JFloat (1 / 2))]),
              (S ''top_5_performance_metrics'',
                JObj [(S ''exact_match'', JFloat (1 / 2)), (S ''edit_similarity'', JFloat (1 / 2)),
                      (S ''token_precision'', JFloat (1 / 2)), (S ''token_recall'', JFloat (1 / 2)),
                      (S ''token_f1'', JFloat (1 / 2))])])"
proof -
  let ?kvs = "[[(S ''new_name'', JStr (S ''a'')),
        (S ''suggestions'', JList [JObj [(S ''name'', JStr (S ''a''))]])],
       [(S ''new_name'', JStr (S ''a''))]]"
  have h: "map_of [(S ''results'', JList (map JObj ?kvs))] (S ''results'')
             = Some (JList (map JObj ?kvs))"
    by simp
  have avg: "spec_average_dict (length ?kvs) (field_sums (map (record_top_1 ascii_builtins) ?kvs))
       = JObj [(S ''exact_match'', JFloat (1 / 2)), (S ''edit_similarity'', JFloat (1 / 2)),
               (S ''token_precision'', JFloat (1 / 2)), (S ''token_recall'', JFloat (1 / 2)),
               (S ''token_f1'', JFloat (1 / 2))]"
       "spec_average_dict (length ?kvs) (field_sums (map (record_top_5 ascii_builtins) ?kvs))
       = JObj [(S ''exact_match'', JFloat (1 / 2)), (S ''edit_similarity'', JFloat (1 / 2)),
               (S ''token_precision'', JFloat (1 / 2)), (S ''token_recall'', JFloat (1 / 2)),
               (S ''token_f1'', JFloat (1 / 2))]"
    by (simp_all add: spec_average_dict_def field_sums_def record_metrics_with_suggestion
          record_metrics_without_suggestion MetricResult_empty_def)
  obtain r where r: "run_document ascii_builtins (JObj [(S ''results'', JList (map JObj ?kvs))]) = Inr r"
    and a: "aggregates r =
             (if ?kvs = []
              then JObj [(S ''top_1_performance_metrics'', spec_zero_dict),
                         (S ''top_5_performance_metrics'', spec_zero_dict)]
              else JObj [(S ''top_1_performance_metrics'',
                           spec_average_dict (length ?kvs) (field_sums (map (record_top_1 ascii_builtins) ?kvs))),
                         (S ''top_5_performance_metrics'',
                           spec_average_dict (length ?kvs) (field_sums (map (record_top_5 ascii_builtins) ?kvs)))])"
    using averages_divide_by_record_count [OF h, of ascii_builtins] by blast
  have "aggregates r =
        JObj [(S ''top_1_performance_metrics'',
                JObj [(S ''exact_match'', JFloat (1 / 2)), (S ''edit_similarity'', JFloat (1 / 2)),
                      (S ''token_precision'', JFloat (1 / 2)), (S ''token_recall'', JFloat (1 / 2)),
                      (S ''token_f1'', JFloat (1 / 2))]),
              (S ''top_5_performance_metrics'',
                JObj [(S ''exact_match'', JFloat (1 / 2)), (S ''edit_similarity'', JFloat (1 / 2)),
                      (S ''token_precision'', JFloat (1 / 2)), (S ''token_recall'', JFloat (1 / 2)),
                      (S ''token_f1'', JFloat (1 / 2))])]"
    unfolding a avg by simp
  with r h show ?thesis by blast
qed

end
